theory Spec2Isabelle
  imports Main
begin

section \<open>Data model\<close>

text \<open>
  Modelled from the spec: the type \<open>Kind\<close> and its constants are declared in a file of
  the package that is not among the sources. The spec describes a closed enumeration
  whose zero value is \<open>Other\<close> (the code agrees: \<open>statusCode[0]\<close>, \<open>hse.Kind == 0\<close>, and
  the comment "the zero value of Kind is Other"); the constants are the fifteen keys of
  the \<open>statusCode\<close> table.
\<close>

datatype Kind =
    Other | Invalid | Permission | IO | Exist | NotExist | Private | Internal
  | BrokenLink | Database | Validation | Unanticipated | InvalidRequest
  | Unauthenticated | Unauthorized

text \<open>
  Modelled from the spec: the method \<open>Kind.String()\<close> is not among the sources. The spec
  says that each value renders to a stable human-readable name and quotes the name of
  \<open>Unanticipated\<close> as "Unanticipated"; every constant renders to its own name here.
\<close>

fun Kind_String :: "Kind \<Rightarrow> string" where
  "Kind_String Other = ''Other''"
| "Kind_String Invalid = ''Invalid''"
| "Kind_String Permission = ''Permission''"
| "Kind_String IO = ''IO''"
| "Kind_String Exist = ''Exist''"
| "Kind_String NotExist = ''NotExist''"
| "Kind_String Private = ''Private''"
| "Kind_String Internal = ''Internal''"
| "Kind_String BrokenLink = ''BrokenLink''"
| "Kind_String Database = ''Database''"
| "Kind_String Validation = ''Validation''"
| "Kind_String Unanticipated = ''Unanticipated''"
| "Kind_String InvalidRequest = ''InvalidRequest''"
| "Kind_String Unauthenticated = ''Unauthenticated''"
| "Kind_String Unauthorized = ''Unauthorized''"

type_synonym Code = string
type_synonym Parameter = string
type_synonym addr = nat

text \<open>
  A value of Go's interface type \<open>error\<close>: the nil interface, a pointer to an \<open>Error\<close>, a
  pointer to an \<open>HTTPErr\<close>, or any other error, which is known by its message only (the
  result of \<open>errors.New\<close> or \<open>fmt.Errorf\<close>, or a foreign error). A pointer is an address
  into the store below; an address outside the store stands for a nil pointer.
\<close>

datatype error = nil | PtrError addr | PtrHTTPErr addr | errorString string

text \<open>
  Modelled from the spec: the struct \<open>Error\<close> is declared outside the sources. The code
  reads and writes the fields \<open>Kind\<close>, \<open>Param\<close>, \<open>Code\<close>, \<open>Err\<close> and \<open>StripError\<close>; the spec
  adds the caller location captured at construction.
\<close>

record Error =
  Location :: string
  Kind :: Kind
  Param :: Parameter
  Code :: Code
  Err :: error
  StripError :: bool

text \<open>The struct \<open>HTTPErr\<close>; its fields carry the prefix \<open>h\<close> where \<open>Error\<close> has the name.\<close>

record HTTPErr =
  HTTPStatusCode :: int
  hKind :: Kind
  hParam :: Parameter
  hCode :: Code
  hErr :: error

text \<open>The structs \<open>ServiceError\<close> and \<open>ErrResponse\<close>, the body of a response.\<close>

record ServiceError =
  seKind :: string
  seCode :: string
  seParam :: string
  seMessage :: string

record ErrResponse =
  Error_field :: ServiceError

text \<open>
  What the logger is asked to write: every entry of these files has severity error,
  carries key/value fields in the order they were attached, and ends with a message.
  \<open>ErrF m\<close> is the field that \<open>Err(e)\<close> attaches, with \<open>m\<close> the text of \<open>e.Error()\<close>. The
  text of the diagnostic of \<open>RE\<close> depends on \<open>runtime.Caller\<close> and on the \<open>%v\<close> rendering
  of the whole argument list; \<open>BadCall\<close> records only that it was written.
\<close>

datatype field = IntF string int | StrF string string | ErrF string

datatype log_entry = LogError "field list" string | BadCall

text \<open>The calls made on the \<open>http.ResponseWriter\<close>, in order.\<close>

datatype call = Header_Set string string | WriteHeader int | Write string

text \<open>
  The state the functions act on: the store of \<open>Error\<close> and of \<open>HTTPErr\<close> objects (a new
  object is appended, so its address is the length of the store before), the log and
  the calls received by the response writer.
\<close>

record state =
  errors :: "Error list"
  httperrs :: "HTTPErr list"
  logged :: "log_entry list"
  writer :: "call list"

datatype panic = NilDereference | SliceBoundsOutOfRange | NoArguments | ErrorMethodFailed

section \<open>Strings\<close>

text \<open>\<open>strings.Index\<close>: the index of the first occurrence of \<open>sep\<close> in \<open>s\<close>, or \<open>-1\<close>.\<close>

fun strings_Index :: "string \<Rightarrow> string \<Rightarrow> int" where
  "strings_Index [] sep = (if sep = [] then 0 else - 1)"
| "strings_Index (c # cs) sep =
     (if take (length sep) (c # cs) = sep then 0
      else (let i = strings_Index cs sep in if i < 0 then - 1 else i + 1))"

text \<open>The decimal rendering of an integer, as \<open>%d\<close> prints it.\<close>

fun digits :: "nat \<Rightarrow> string" where
  "digits n =
     (if n < 10 then [''0123456789'' ! n]
      else digits (n div 10) @ [''0123456789'' ! (n mod 10)])"

definition itoa :: "int \<Rightarrow> string" where
  "itoa i = (if i < 0 then CHR ''-'' # digits (nat (- i)) else digits (nat i))"

section \<open>The method Error()\<close>

text \<open>
  Modelled from the spec: the method \<open>Error()\<close> of \<open>Error\<close> is not among the sources.
  The spec's Render concatenates, in order, the caller location, the classification name
  if it is not the default, the code, the parameter, and, if a cause is wrapped, the
  delimiter followed by the rendering of the cause; StripStack skips the delimiter
  \<open>|:\<close> and one separator character, so the delimiter is written \<open>|: \<close>.

  The case of \<open>HTTPErr\<close> is the method \<open>HTTPErr.Error()\<close> of the sources: the empty string
  without a cause, the cause's message otherwise.

  The recursion follows the chain of causes through the store, so it takes fuel; the
  result is \<open>None\<close> when the method is called on nil or on a nil pointer, and when the
  fuel runs out, which happens only on a cyclic chain, where the Go method does not
  return.
\<close>

fun error_text :: "nat \<Rightarrow> state \<Rightarrow> error \<Rightarrow> string option" where
  "error_text 0 s e = None"
| "error_text (Suc n) s nil = None"
| "error_text (Suc n) s (errorString m) = Some m"
| "error_text (Suc n) s (PtrHTTPErr b) =
     (if b < length (httperrs s) then
        (if hErr (httperrs s ! b) = nil then Some []
         else error_text n s (hErr (httperrs s ! b)))
      else None)"
| "error_text (Suc n) s (PtrError a) =
     (if a < length (errors s) then
        (let x = errors s ! a;
             own = Location x @ (if Kind x \<noteq> Other then Kind_String (Kind x) else [])
                   @ Code x @ Param x
         in if Err x = nil then Some own
            else (case error_text n s (Err x) of
                    None \<Rightarrow> None
                  | Some t \<Rightarrow> Some (own @ ''|: '' @ t)))
      else None)"

definition error_Error :: "state \<Rightarrow> error \<Rightarrow> string option" where
  "error_Error s e = error_text (Suc (length (errors s) + length (httperrs s))) s e"

text \<open>
  The chain of causes of an error ends: it leads, through objects of the store, to an
  \<open>Error\<close> or an \<open>HTTPErr\<close> without a cause, or to a plain error. A chain does not end
  when it reaches a nil pointer or runs in a cycle. This says of the store what
  \<open>error_Error\<close> computes with its fuel: the method returns a message exactly for the
  errors whose chain ends (lemma \<open>ends_iff\<close> below).
\<close>

inductive ends :: "state \<Rightarrow> error \<Rightarrow> bool" for s :: state where
  ends_errorString: "ends s (errorString m)"
| ends_Error_nil:
    "a < length (errors s) \<Longrightarrow> Err (errors s ! a) = nil \<Longrightarrow> ends s (PtrError a)"
| ends_Error:
    "a < length (errors s) \<Longrightarrow> ends s (Err (errors s ! a)) \<Longrightarrow> ends s (PtrError a)"
| ends_HTTPErr_nil:
    "b < length (httperrs s) \<Longrightarrow> hErr (httperrs s ! b) = nil \<Longrightarrow> ends s (PtrHTTPErr b)"
| ends_HTTPErr:
    "b < length (httperrs s) \<Longrightarrow> ends s (hErr (httperrs s ! b)) \<Longrightarrow> ends s (PtrHTTPErr b)"

code_pred ends .

text \<open>
  For the proof that the fuel of \<open>error_Error\<close> is enough: the non-nil pointers into a
  store, the cause an error wraps, and the least fuel with which the method returns.
\<close>

definition pointers :: "state \<Rightarrow> error set" where
  "pointers s = PtrError ` {..<length (errors s)} \<union> PtrHTTPErr ` {..<length (httperrs s)}"

definition cause :: "state \<Rightarrow> error \<Rightarrow> error" where
  "cause s e = (case e of PtrError a \<Rightarrow> Err (errors s ! a)
                | PtrHTTPErr b \<Rightarrow> hErr (httperrs s ! b) | _ \<Rightarrow> nil)"

definition needs :: "state \<Rightarrow> error \<Rightarrow> nat \<Rightarrow> bool" where
  "needs s e k \<longleftrightarrow> error_text k s e \<noteq> None \<and> (\<forall>j<k. error_text j s e = None)"

section \<open>StripStack\<close>

text \<open>
  \<open>StripStack\<close> is the same function in both files. The slice expression
  \<open>errStr[idx+3:]\<close> panics when \<open>idx+3\<close> is beyond the length of the string.
\<close>

definition StripStack :: "state \<Rightarrow> error \<Rightarrow> panic + error" where
  "StripStack s e =
     (case e of
        PtrError a \<Rightarrow>
          (case error_Error s (PtrError a) of
             None \<Rightarrow> Inl ErrorMethodFailed
           | Some errStr \<Rightarrow>
               (let idx = strings_Index errStr ''|:'' in
                if idx + 3 \<le> int (length errStr)
                then Inr (errorString (drop (nat (idx + 3)) errStr))
                else Inl SliceBoundsOutOfRange))
      | _ \<Rightarrow> Inr e)"

section \<open>The response body\<close>

text \<open>
  \<open>json.Marshal\<close> of an \<open>ErrResponse\<close>. The struct tags of the sources fix the
  shape: the key \<open>error\<close>, then the keys \<open>kind\<close>, \<open>code\<close>, \<open>param\<close>, \<open>message\<close> in this
  order, each left out when its value is empty. The library writes a string between
  double quotes and escapes the quote, the backslash, the control characters and the
  characters \<open><\<close>, \<open>>\<close> and \<open>&\<close>; other bytes are copied (the model leaves out what
  the library does to invalid UTF-8 and to the line separators U+2028 and U+2029).
\<close>

definition hexdigit :: "nat \<Rightarrow> char" where
  "hexdigit n = ''0123456789abcdef'' ! n"

definition json_escape :: "char \<Rightarrow> string" where
  "json_escape c =
     (if c = CHR 0x22 then [CHR 0x5C, CHR 0x22]
      else if c = CHR 0x5C then [CHR 0x5C, CHR 0x5C]
      else if c = CHR 0x0A then [CHR 0x5C, CHR ''n'']
      else if c = CHR 0x0D then [CHR 0x5C, CHR ''r'']
      else if c = CHR 0x09 then [CHR 0x5C, CHR ''t'']
      else if of_char c < (32 :: nat) \<or> c = CHR ''<'' \<or> c = CHR ''>'' \<or> c = CHR ''&''
      then [CHR 0x5C, CHR ''u'', CHR ''0'', CHR ''0'',
            hexdigit (of_char c div 16), hexdigit (of_char c mod 16)]
      else [c])"

definition json_string :: "string \<Rightarrow> string" where
  "json_string v = CHR 0x22 # concat (map json_escape v) @ [CHR 0x22]"

definition json_member :: "string \<Rightarrow> string \<Rightarrow> string list" where
  "json_member key v = (if v = [] then [] else [json_string key @ '':'' @ json_string v])"

fun join :: "string list \<Rightarrow> string" where
  "join [] = []"
| "join [m] = m"
| "join (m # ms) = m @ '','' @ join ms"

definition json_ServiceError :: "ServiceError \<Rightarrow> string" where
  "json_ServiceError se =
     ''{'' @ join (json_member ''kind'' (seKind se) @ json_member ''code'' (seCode se)
                   @ json_member ''param'' (seParam se)
                   @ json_member ''message'' (seMessage se)) @ ''}''"

definition json_Marshal :: "ErrResponse \<Rightarrow> string" where
  "json_Marshal er =
     ''{'' @ json_string ''error'' @ '':'' @ json_ServiceError (Error_field er) @ ''}''"

section \<open>Writing the response\<close>

definition w_call :: "call \<Rightarrow> state \<Rightarrow> state" where
  "w_call c s = s\<lparr>writer := writer s @ [c]\<rparr>"

definition log_write :: "log_entry \<Rightarrow> state \<Rightarrow> state" where
  "log_write entry s = s\<lparr>logged := logged s @ [entry]\<rparr>"

text \<open>\<open>sendError\<close> of httperrors.go. \<open>fmt.Fprintln\<close> writes the string and a newline.\<close>

definition sendError :: "string \<Rightarrow> int \<Rightarrow> state \<Rightarrow> state" where
  "sendError errStr httpStatusCode s =
     (let s1 = (if errStr \<noteq> [] then w_call (Header_Set ''Content-Type'' ''application/json'') s
                else s);
          s2 = w_call (Header_Set ''X-Content-Type-Options'' ''nosniff'') s1;
          s3 = w_call (WriteHeader httpStatusCode) s2
      in if errStr \<noteq> [] then w_call (Write (errStr @ [CHR 0x0A])) s3 else s3)"

text \<open>\<open>sendError\<close> of the second file, which also defines \<open>HTTPError\<close> and \<open>RE\<close>.\<close>

definition sendError_part_000 :: "string \<Rightarrow> int \<Rightarrow> state \<Rightarrow> state" where
  "sendError_part_000 errStr statusCode s =
     (let s1 = w_call (Header_Set ''Content-Type'' ''application/json'') s;
          s2 = w_call (Header_Set ''X-Content-Type-Options'' ''nosniff'') s1;
          s3 = w_call (WriteHeader statusCode) s2
      in if errStr \<noteq> [] then w_call (Write (errStr @ [CHR 0x0A])) s3 else s3)"

section \<open>HTTPErrorResponse\<close>

text \<open>The table \<open>statusCode\<close>; a Go map gives the zero value for a missing key.\<close>

definition statusCode :: "Kind \<rightharpoonup> int" where
  "statusCode = map_of
     [(Unauthenticated, 401), (Unauthorized, 403), (Permission, 403), (Other, 400),
      (Invalid, 400), (Exist, 400), (NotExist, 400), (Private, 400), (BrokenLink, 400),
      (Validation, 400), (InvalidRequest, 400), (IO, 500), (Internal, 500),
      (Database, 500), (Unanticipated, 500)]"

definition statusCode_at :: "Kind \<Rightarrow> int" where
  "statusCode_at k = (case statusCode k of None \<Rightarrow> 0 | Some c \<Rightarrow> c)"

text \<open>
  Modelled from the spec: the method \<open>isZero\<close> is not among the sources. The spec calls
  an Error Value empty when all its fields are zero.
\<close>

definition isZero :: "Error \<Rightarrow> bool" where
  "isZero e \<longleftrightarrow> Location e = [] \<and> Kind e = Other \<and> Param e = [] \<and> Code e = []
                \<and> Err e = nil \<and> \<not> StripError e"

definition set_Error :: "addr \<Rightarrow> (Error \<Rightarrow> Error) \<Rightarrow> state \<Rightarrow> state" where
  "set_Error a f s = s\<lparr>errors := (errors s)[a := f (errors s ! a)]\<rparr>"

text \<open>\<open>copy := *e\<close>: a new object with the fields of the one at \<open>a\<close>.\<close>

definition copy_Error :: "addr \<Rightarrow> state \<Rightarrow> state" where
  "copy_Error a s = s\<lparr>errors := errors s @ [errors s ! a]\<rparr>"

definition HTTPErrorResponse :: "state \<Rightarrow> error \<Rightarrow> panic + state" where
  "HTTPErrorResponse s err =
     (case err of
        nil \<Rightarrow>
          (let httpStatusCode = statusCode_at Other in
           Inr (sendError [] httpStatusCode
                  (log_write (LogError [IntF ''HTTP Error StatusCode'' httpStatusCode]
                                ''nil error - no response body sent'') s)))
      | PtrError a \<Rightarrow>
          (if \<not> a < length (errors s) then Inl NilDereference
           else
             (let e = errors s ! a; httpStatusCode = statusCode_at (Kind e) in
              if isZero e then
                Inr (sendError [] httpStatusCode
                       (log_write (LogError [IntF ''HTTP Error StatusCode'' httpStatusCode] [])
                          s))
              else if Kind e = Unauthenticated then
                (case error_Error s (PtrError a) of
                   None \<Rightarrow> Inl ErrorMethodFailed
                 | Some m \<Rightarrow>
                     Inr (sendError [] httpStatusCode
                            (log_write (LogError [IntF ''HTTP Error StatusCode'' 401] m) s)))
              else if Kind e = Unauthorized then
                (case error_Error s (PtrError a) of
                   None \<Rightarrow> Inl ErrorMethodFailed
                 | Some m \<Rightarrow>
                     Inr (sendError [] httpStatusCode
                            (log_write (LogError [IntF ''HTTP Error StatusCode'' 403] m) s)))
              else
                (let fullErr = length (errors s); s1 = copy_Error a s in
                 case error_Error s1 (PtrError fullErr) of
                   None \<Rightarrow> Inl ErrorMethodFailed
                 | Some full \<Rightarrow>
                     (let s2 = log_write
                            (LogError [ErrF full, IntF ''HTTPStatusCode'' httpStatusCode,
                                       StrF ''Kind'' (Kind_String (Kind (errors s1 ! fullErr))),
                                       StrF ''Parameter'' (Param (errors s1 ! fullErr)),
                                       StrF ''Code'' (Code (errors s1 ! fullErr))]
                               ''Response Error Sent'') s1
                      in case StripStack s2 (PtrError fullErr) of
                           Inl p \<Rightarrow> Inl p
                         | Inr stripped \<Rightarrow>
                             (let s3 = set_Error fullErr (\<lambda>x. x\<lparr>Err := stripped\<rparr>) s2;
                                  s4 = set_Error fullErr (\<lambda>x. x\<lparr>StripError := True\<rparr>) s3;
                                  s5 = set_Error a (\<lambda>x. x\<lparr>Err := PtrError fullErr\<rparr>) s4
                              in case error_Error s5 (PtrError a) of
                                   None \<Rightarrow> Inl ErrorMethodFailed
                                 | Some msg \<Rightarrow>
                                     (let er = \<lparr>Error_field =
                                                 \<lparr>seKind = Kind_String (Kind (errors s5 ! a)),
                                                  seCode = Code (errors s5 ! a),
                                                  seParam = Param (errors s5 ! a),
                                                  seMessage = msg\<rparr>\<rparr>
                                      in Inr (sendError (json_Marshal er) httpStatusCode
                                                s5)))))))
      | _ \<Rightarrow>
          (let cd = 500;
               er = \<lparr>Error_field = \<lparr>seKind = Kind_String Unanticipated,
                                      seCode = ''Unanticipated'',
                                      seParam = [],
                                      seMessage = ''Unexpected error - contact support''\<rparr>\<rparr>
           in case error_Error s err of
                None \<Rightarrow> Inl ErrorMethodFailed
              | Some m \<Rightarrow>
                  Inr (sendError (json_Marshal er) cd
                         (log_write (LogError [] (''Unknown Error - HTTP '' @ itoa cd @ '' - '' @ m))
                            s))))"

section \<open>HTTPErr and HTTPError\<close>

definition Status :: "HTTPErr \<Rightarrow> int" where
  "Status hse = HTTPStatusCode hse"

definition ErrKind :: "HTTPErr \<Rightarrow> string" where
  "ErrKind hse = (if hKind hse = Other then [] else Kind_String (hKind hse))"

definition ErrParam :: "HTTPErr \<Rightarrow> string" where
  "ErrParam hse = hParam hse"

definition ErrCode :: "HTTPErr \<Rightarrow> string" where
  "ErrCode hse = hCode hse"

definition StatusOnly :: "HTTPErr \<Rightarrow> bool" where
  "StatusOnly hse \<longleftrightarrow>
     HTTPStatusCode hse \<noteq> 0 \<and> hKind hse = Other \<and> hParam hse = [] \<and> hCode hse = []
     \<and> hErr hse = nil"

text \<open>
  Only a pointer to an \<open>HTTPErr\<close> has all the methods of \<open>hError\<close> (\<open>StatusOnly\<close> has a
  pointer receiver). The function tests \<open>StatusOnly\<close> twice, first for the log entry,
  then for the response. The message of the entry written by
  \<open>Msgf("HTTP %d - %s", ...)\<close> is built from \<open>e.Error()\<close>, which is called again for
  the body.
\<close>

definition HTTPError :: "state \<Rightarrow> error \<Rightarrow> panic + state" where
  "HTTPError s err =
     (case err of
        nil \<Rightarrow> Inr s
      | PtrHTTPErr b \<Rightarrow>
          (if \<not> b < length (httperrs s) then Inl NilDereference
           else
             (let e = httperrs s ! b in
              case (if StatusOnly e then
                      Inr (log_write
                             (LogError [IntF ''HTTP Error StatusCode'' (Status e)] []) s)
                    else
                      (case error_Error s (PtrHTTPErr b) of
                         None \<Rightarrow> Inl ErrorMethodFailed
                       | Some m \<Rightarrow>
                           Inr (log_write
                                  (LogError [] (''HTTP '' @ itoa (Status e) @ '' - '' @ m)) s)))
              of
                Inl p \<Rightarrow> Inl p
              | Inr s1 \<Rightarrow>
                  (if StatusOnly e then Inr (sendError_part_000 [] (Status e) s1)
                   else
                     (case error_Error s1 (PtrHTTPErr b) of
                        None \<Rightarrow> Inl ErrorMethodFailed
                      | Some m \<Rightarrow>
                          (let er = \<lparr>Error_field =
                                      \<lparr>seKind = ErrKind e, seCode = ErrCode e,
                                       seParam = ErrParam e, seMessage = m\<rparr>\<rparr>
                           in Inr (sendError_part_000 (json_Marshal er) (Status e) s1))))))
      | _ \<Rightarrow>
          (let cd = 500;
               er = \<lparr>Error_field = \<lparr>seKind = Kind_String Unanticipated,
                                      seCode = ''Unanticipated'',
                                      seParam = [],
                                      seMessage = ''Unexpected error - contact support''\<rparr>\<rparr>
           in case error_Error s err of
                None \<Rightarrow> Inl ErrorMethodFailed
              | Some m \<Rightarrow>
                  Inr (sendError_part_000 (json_Marshal er) cd
                         (log_write (LogError [] (''Unknown Error - HTTP '' @ itoa cd @ '' - '' @ m))
                            s))))"

section \<open>RE\<close>

text \<open>
  An argument of \<open>RE\<close>, by its dynamic type. \<open>Error_arg\<close> holds a value of an error
  type (or the nil interface, which no case of the type switch matches);
  \<open>Other_arg t v\<close> is a value of any other type, with its \<open>%T\<close> and \<open>%v\<close> renderings.
\<close>

datatype arg =
    Int_arg int | Kind_arg Kind | String_arg string | Code_arg Code
  | Parameter_arg Parameter | Error_arg error | Other_arg string string

text \<open>
  How one pass of the loop ends: with a panic, with the \<open>return\<close> of the default case,
  or with the value under construction and the state, for the next argument.
\<close>

datatype loop_result = Panicked panic | Returned error state | Built HTTPErr state

definition unknown_type :: "string \<Rightarrow> string \<Rightarrow> error" where
  "unknown_type t v = errorString (''unknown type '' @ t @ '', value '' @ v @ '' in error call'')"

text \<open>
  The value \<open>e\<close> is private to \<open>RE\<close> until it is returned: the model carries it as a
  value and stores it when \<open>RE\<close> returns.
\<close>

fun RE_arg :: "state \<Rightarrow> HTTPErr \<Rightarrow> arg \<Rightarrow> loop_result" where
  "RE_arg s e (Int_arg n) = Built (e\<lparr>HTTPStatusCode := n\<rparr>) s"
| "RE_arg s e (Kind_arg k) = Built (e\<lparr>hKind := k\<rparr>) s"
| "RE_arg s e (String_arg c) = Built (e\<lparr>hCode := c\<rparr>) s"
| "RE_arg s e (Code_arg c) = Built (e\<lparr>hCode := c\<rparr>) s"
| "RE_arg s e (Parameter_arg p) = Built (e\<lparr>hParam := p\<rparr>) s"
| "RE_arg s e (Error_arg (PtrError a)) =
     (if \<not> a < length (errors s) then Panicked NilDereference
      else
        (let fullErr = length (errors s); s1 = copy_Error a s in
         case error_Error s1 (PtrError fullErr) of
           None \<Rightarrow> Panicked ErrorMethodFailed
         | Some full \<Rightarrow>
             (let s2 = log_write
                    (LogError [ErrF full, IntF ''HTTPStatusCode'' (HTTPStatusCode e),
                               StrF ''Kind'' (Kind_String (Kind (errors s1 ! fullErr))),
                               StrF ''Parameter'' (Param (errors s1 ! fullErr)),
                               StrF ''Code'' (Code (errors s1 ! fullErr))]
                       ''Response Error (RE)'') s1
              in case StripStack s2 (PtrError fullErr) of
                   Inl p \<Rightarrow> Panicked p
                 | Inr stripped \<Rightarrow>
                     (let s3 = set_Error fullErr (\<lambda>x. x\<lparr>Err := stripped\<rparr>) s2;
                          s4 = set_Error fullErr (\<lambda>x. x\<lparr>StripError := True\<rparr>) s3
                      in Built (e\<lparr>hErr := PtrError fullErr\<rparr>) s4))))"
| "RE_arg s e (Error_arg nil) =
     Returned (unknown_type ''<nil>'' ''<nil>'') (log_write BadCall s)"
| "RE_arg s e (Error_arg err) = Built (e\<lparr>hErr := err\<rparr>) s"
| "RE_arg s e (Other_arg t v) = Returned (unknown_type t v) (log_write BadCall s)"

fun RE_loop :: "state \<Rightarrow> HTTPErr \<Rightarrow> arg list \<Rightarrow> loop_result" where
  "RE_loop s e [] = Built e s"
| "RE_loop s e (x # xs) =
     (case RE_arg s e x of
        Built e' s' \<Rightarrow> RE_loop s' e' xs
      | r \<Rightarrow> r)"

text \<open>The statements after the loop: the suppression of duplicates, and the return.\<close>

definition RE_return :: "state \<Rightarrow> HTTPErr \<Rightarrow> panic + error \<times> state" where
  "RE_return s e = Inr (PtrHTTPErr (length (httperrs s)), s\<lparr>httperrs := httperrs s @ [e]\<rparr>)"

text \<open>
  The three blocks of the suppression, on the value \<open>e\<close> and the object at \<open>prev\<close>: an
  inner field equal to the outer one is cleared; then, if the outer field is unset, the
  inner one is pulled up and cleared.
\<close>

definition merge_Kind :: "addr \<Rightarrow> HTTPErr \<times> state \<Rightarrow> HTTPErr \<times> state" where
  "merge_Kind prev = (\<lambda>(e, s).
     (let s1 = (if Kind (errors s ! prev) = hKind e
                then set_Error prev (\<lambda>x. x\<lparr>Kind := Other\<rparr>) s else s)
      in if hKind e = Other
         then (e\<lparr>hKind := Kind (errors s1 ! prev)\<rparr>,
               set_Error prev (\<lambda>x. x\<lparr>Kind := Other\<rparr>) s1)
         else (e, s1)))"

definition merge_Code :: "addr \<Rightarrow> HTTPErr \<times> state \<Rightarrow> HTTPErr \<times> state" where
  "merge_Code prev = (\<lambda>(e, s).
     (let s1 = (if Code (errors s ! prev) = hCode e
                then set_Error prev (\<lambda>x. x\<lparr>Code := []\<rparr>) s else s)
      in if hCode e = []
         then (e\<lparr>hCode := Code (errors s1 ! prev)\<rparr>,
               set_Error prev (\<lambda>x. x\<lparr>Code := []\<rparr>) s1)
         else (e, s1)))"

definition merge_Param :: "addr \<Rightarrow> HTTPErr \<times> state \<Rightarrow> HTTPErr \<times> state" where
  "merge_Param prev = (\<lambda>(e, s).
     (let s1 = (if Param (errors s ! prev) = hParam e
                then set_Error prev (\<lambda>x. x\<lparr>Param := []\<rparr>) s else s)
      in if hParam e = []
         then (e\<lparr>hParam := Param (errors s1 ! prev)\<rparr>,
               set_Error prev (\<lambda>x. x\<lparr>Param := []\<rparr>) s1)
         else (e, s1)))"

definition RE_merge :: "state \<Rightarrow> HTTPErr \<Rightarrow> panic + error \<times> state" where
  "RE_merge s e =
     (case hErr e of
        PtrError prev \<Rightarrow>
          (if \<not> prev < length (errors s) then Inl NilDereference
           else (case merge_Param prev (merge_Code prev (merge_Kind prev (e, s))) of
                   (e', s') \<Rightarrow> RE_return s' e'))
      | _ \<Rightarrow> RE_return s e)"

definition zero_HTTPErr :: HTTPErr where
  "zero_HTTPErr = \<lparr>HTTPStatusCode = 0, hKind = Other, hParam = [], hCode = [], hErr = nil\<rparr>"

definition RE :: "state \<Rightarrow> arg list \<Rightarrow> panic + error \<times> state" where
  "RE s args =
     (if args = [] then Inl NoArguments
      else (case RE_loop s zero_HTTPErr args of
              Panicked p \<Rightarrow> Inl p
            | Returned r s' \<Rightarrow> Inr (r, s')
            | Built e s' \<Rightarrow> RE_merge s' e))"

section \<open>A store for the examples\<close>

text \<open>
  Five \<open>Error\<close> objects, at the addresses 0 to 4: one with a classification only, two
  that wrap a plain error, one with a parameter only, one for a failed authentication;
  and one zero \<open>HTTPErr\<close>. Nothing is logged or written yet.
\<close>

definition example_state :: state where
  "example_state =
     \<lparr>errors =
        [\<lparr>Location = [], Kind = Validation, Param = [], Code = [], Err = nil,
          StripError = False\<rparr>,
         \<lparr>Location = ''svc.Get'', Kind = Validation, Param = ''id'', Code = ''E42'',
          Err = errorString ''boom'', StripError = False\<rparr>,
         \<lparr>Location = ''db.Query'', Kind = Database, Param = [], Code = [],
          Err = errorString ''boom'', StripError = False\<rparr>,
         \<lparr>Location = [], Kind = Other, Param = ''p'', Code = [], Err = nil,
          StripError = False\<rparr>,
         \<lparr>Location = ''auth.Check'', Kind = Unauthenticated, Param = ''token'', Code = ''E7'',
          Err = errorString ''expired'', StripError = False\<rparr>],
      httperrs = [zero_HTTPErr],
      logged = [],
      writer = []\<rparr>"

text \<open>
  A second store: one \<open>Error\<close> for a failed authentication whose cause is a nil pointer
  to an \<open>HTTPErr\<close> (there is no \<open>HTTPErr\<close> object, so the address 0 points to none).
\<close>

definition nil_cause_state :: state where
  "nil_cause_state =
     \<lparr>errors =
        [\<lparr>Location = ''auth.Check'', Kind = Unauthenticated, Param = ''token'', Code = ''E7'',
          Err = PtrHTTPErr 0, StripError = False\<rparr>],
      httperrs = [],
      logged = [],
      writer = []\<rparr>"

text \<open>
  What an example looks at after a call: the \<open>Error\<close> objects of the store after
  \<open>HTTPErrorResponse\<close>, and the value that \<open>RE\<close> has built and returned.
\<close>

definition errors_after :: "panic + state \<Rightarrow> Error list option" where
  "errors_after r = (case r of Inl p \<Rightarrow> None | Inr s' \<Rightarrow> Some (errors s'))"

definition built_value :: "panic + error \<times> state \<Rightarrow> HTTPErr option" where
  "built_value r =
     (case r of
        Inr (PtrHTTPErr b, s') \<Rightarrow>
          (if b < length (httperrs s') then Some (httperrs s' ! b) else None)
      | _ \<Rightarrow> None)"

section \<open>The specification's own words\<close>

text \<open>
  The fixed mapping from classification to status, as the specification's table gives
  it; it is compared with the table \<open>statusCode\<close> of the code below.
\<close>

definition fixed_mapping :: "Kind \<Rightarrow> int" where
  "fixed_mapping K =
     (if K = Unauthenticated then 401
      else if K = Unauthorized \<or> K = Permission then 403
      else if K \<in> {Other, Invalid, Exist, NotExist, Private, BrokenLink, Validation,
                    InvalidRequest} then 400
      else 500)"

text \<open>
  The arguments of a list that go to one destination field, in order: the integers to
  the status code, the classifications, the plain strings and the codes to the code,
  the parameters, and the errors to the cause. \<open>last_or d xs\<close> is the last of them, or
  \<open>d\<close>, the zero value of the field, when there is none.
\<close>

fun Int_args :: "arg list \<Rightarrow> int list" where
  "Int_args [] = []"
| "Int_args (Int_arg n # xs) = n # Int_args xs"
| "Int_args (x # xs) = Int_args xs"

fun Kind_args :: "arg list \<Rightarrow> Kind list" where
  "Kind_args [] = []"
| "Kind_args (Kind_arg k # xs) = k # Kind_args xs"
| "Kind_args (x # xs) = Kind_args xs"

fun Code_args :: "arg list \<Rightarrow> Code list" where
  "Code_args [] = []"
| "Code_args (String_arg c # xs) = c # Code_args xs"
| "Code_args (Code_arg c # xs) = c # Code_args xs"
| "Code_args (x # xs) = Code_args xs"

fun Parameter_args :: "arg list \<Rightarrow> Parameter list" where
  "Parameter_args [] = []"
| "Parameter_args (Parameter_arg p # xs) = p # Parameter_args xs"
| "Parameter_args (x # xs) = Parameter_args xs"

fun Error_args :: "arg list \<Rightarrow> error list" where
  "Error_args [] = []"
| "Error_args (Error_arg e # xs) = e # Error_args xs"
| "Error_args (x # xs) = Error_args xs"

definition last_or :: "'a \<Rightarrow> 'a list \<Rightarrow> 'a" where
  "last_or d xs = (if xs = [] then d else last xs)"

text \<open>
  An argument that the loop of \<open>RE\<close> only records: anything but a pointer to an
  \<open>Error\<close>, the nil interface and a value of a type the switch does not know.
\<close>

fun plain_arg :: "arg \<Rightarrow> bool" where
  "plain_arg (Error_arg nil) = False"
| "plain_arg (Error_arg (PtrError a)) = False"
| "plain_arg (Other_arg t v) = False"
| "plain_arg x = True"

text \<open>
  The state after the answer to an unrecognised error with the message \<open>m\<close>: one log
  entry with \<open>m\<close>, and the status 500 with the fixed body, which does not hold \<open>m\<close>.
\<close>

definition unanticipated_response :: "string \<Rightarrow> state \<Rightarrow> state" where
  \<open>unanticipated_response m s =
     s\<lparr>logged := logged s @ [LogError [] (''Unknown Error - HTTP 500 - '' @ m)],
       writer := writer s @
         [Header_Set ''Content-Type'' ''application/json'',
          Header_Set ''X-Content-Type-Options'' ''nosniff'', WriteHeader 500,
          Write (''{"error":{"kind":"Unanticipated","code":"Unanticipated","message":"Unexpected error - contact support"}}'' @ [CHR 0x0A])]\<rparr>\<close>

section \<open>Basic facts\<close>

lemma sendError_eq:
  "sendError errStr code s =
     s\<lparr>writer := writer s
          @ (if errStr \<noteq> [] then [Header_Set ''Content-Type'' ''application/json''] else [])
          @ [Header_Set ''X-Content-Type-Options'' ''nosniff'', WriteHeader code]
          @ (if errStr \<noteq> [] then [Write (errStr @ [CHR 0x0A])] else [])\<rparr>"
  by (simp add: sendError_def w_call_def Let_def)

lemma sendError_part_000_eq:
  "sendError_part_000 errStr code s =
     s\<lparr>writer := writer s
          @ [Header_Set ''Content-Type'' ''application/json'',
             Header_Set ''X-Content-Type-Options'' ''nosniff'', WriteHeader code]
          @ (if errStr \<noteq> [] then [Write (errStr @ [CHR 0x0A])] else [])\<rparr>"
  by (simp add: sendError_part_000_def w_call_def Let_def)

lemma json_Marshal_nonempty: "json_Marshal er \<noteq> []"
  by (simp add: json_Marshal_def)

lemma unanticipated_body:
  \<open>json_Marshal \<lparr>Error_field = \<lparr>seKind = Kind_String Unanticipated,
                                      seCode = ''Unanticipated'',
                                      seParam = [],
                                      seMessage = ''Unexpected error - contact support''\<rparr>\<rparr>
   = ''{"error":{"kind":"Unanticipated","code":"Unanticipated","message":"Unexpected error - contact support"}}''\<close>
  by (simp add: json_Marshal_def json_ServiceError_def json_member_def json_string_def
      json_escape_def)

lemma empty_body:
  \<open>json_Marshal \<lparr>Error_field = \<lparr>seKind = [], seCode = [], seParam = [], seMessage = []\<rparr>\<rparr>
   = ''{"error":{}}''\<close>
  by (simp add: json_Marshal_def json_ServiceError_def json_member_def json_string_def
      json_escape_def)

lemma itoa_500: "itoa 500 = ''500''"
  by code_simp

lemma itoa_0: "itoa 0 = ''0''"
  by code_simp

lemma statusCode_values:
  "statusCode_at Unauthenticated = 401"
  "statusCode_at Unauthorized = 403" "statusCode_at Permission = 403"
  "statusCode_at Other = 400" "statusCode_at Invalid = 400" "statusCode_at Exist = 400"
  "statusCode_at NotExist = 400" "statusCode_at Private = 400" "statusCode_at BrokenLink = 400"
  "statusCode_at Validation = 400" "statusCode_at InvalidRequest = 400"
  "statusCode_at IO = 500" "statusCode_at Internal = 500" "statusCode_at Database = 500"
  "statusCode_at Unanticipated = 500"
  by (simp_all add: statusCode_at_def statusCode_def)

lemma statusCode_at_fixed: "statusCode_at K = fixed_mapping K"
  by (cases K) (simp_all add: statusCode_values fixed_mapping_def)

lemma Kind_String_plain:
  "strings_Index (Kind_String K) ''|:'' = - 1 \<and> 2 \<le> length (Kind_String K)"
  by (cases K) simp_all

lemma error_text_errorString: "0 < n \<Longrightarrow> error_text n s (errorString t) = Some t"
  by (cases n) simp_all

lemma errors_sendError [simp]: "errors (sendError b c s) = errors s"
  by (simp add: sendError_eq)

lemma errors_log_write [simp]: "errors (log_write x s) = errors s"
  by (simp add: log_write_def)

lemma last_or_Nil [simp]: "last_or d [] = d"
  by (simp add: last_or_def)

lemma last_or_Cons [simp]: "last_or d (x # xs) = last_or x xs"
  by (simp add: last_or_def)

section \<open>The fuel of error_text\<close>

text \<open>
  More fuel never changes a result: the fuel only bounds the recursion, and the result
  is the message as soon as there is one.
\<close>

lemma error_text_Suc: "error_text n s e = Some m \<Longrightarrow> error_text (Suc n) s e = Some m"
proof (induction n arbitrary: e m)
  case 0
  then show ?case by simp
next
  case (Suc n)
  show ?case
  proof (cases e)
    case nil
    with Suc.prems show ?thesis by simp
  next
    case (PtrError a)
    show ?thesis
    proof (cases "a < length (errors s) \<and> Err (errors s ! a) \<noteq> nil")
      case True
      with Suc.prems PtrError obtain t where t: "error_text n s (Err (errors s ! a)) = Some t"
        by (auto simp add: Let_def split: option.splits)
      from Suc.IH [OF t] t Suc.prems PtrError True show ?thesis
        by (simp add: Let_def)
    next
      case False
      with Suc.prems PtrError show ?thesis by (auto simp add: Let_def split: if_splits)
    qed
  next
    case (PtrHTTPErr b)
    show ?thesis
    proof (cases "b < length (httperrs s) \<and> hErr (httperrs s ! b) \<noteq> nil")
      case True
      with Suc.prems PtrHTTPErr have t: "error_text n s (hErr (httperrs s ! b)) = Some m"
        by simp
      from Suc.IH [OF t] PtrHTTPErr True show ?thesis by simp
    next
      case False
      with Suc.prems PtrHTTPErr show ?thesis by (auto split: if_splits)
    qed
  next
    case (errorString x)
    with Suc.prems show ?thesis by simp
  qed
qed

lemma error_text_mono:
  "error_text n s e = Some m \<Longrightarrow> n \<le> k \<Longrightarrow> error_text k s e = Some m"
  by (induction k) (auto simp add: le_Suc_eq error_text_Suc)

text \<open>
  The method returns with some fuel exactly when the chain of causes ends.
\<close>

lemma error_text_nil: "error_text n s nil = None"
  by (cases n) simp_all

lemma ends_not_nil: "ends s e \<Longrightarrow> e \<noteq> nil"
  by (induction rule: ends.induct) simp_all

lemma ends_imp_text: "ends s e \<Longrightarrow> \<exists>n m. error_text n s e = Some m"
proof (induction rule: ends.induct)
  case (ends_errorString m)
  have "error_text (Suc 0) s (errorString m) = Some m" by simp
  then show ?case by blast
next
  case (ends_Error_nil a)
  then have "\<exists>m. error_text (Suc 0) s (PtrError a) = Some m" by (simp add: Let_def)
  then show ?case by blast
next
  case (ends_Error a)
  then obtain n m where "error_text n s (Err (errors s ! a)) = Some m" by blast
  with ends_Error.hyps(1) have "\<exists>m'. error_text (Suc n) s (PtrError a) = Some m'"
    by (simp add: Let_def)
  then show ?case by blast
next
  case (ends_HTTPErr_nil b)
  then have "error_text (Suc 0) s (PtrHTTPErr b) = Some []" by simp
  then show ?case by blast
next
  case (ends_HTTPErr b)
  then obtain n m where "error_text n s (hErr (httperrs s ! b)) = Some m" by blast
  with ends_HTTPErr.hyps(1) have "\<exists>m'. error_text (Suc n) s (PtrHTTPErr b) = Some m'"
    by simp
  then show ?case by blast
qed

lemma text_imp_ends: "error_text n s e = Some m \<Longrightarrow> ends s e"
proof (induction n arbitrary: e m)
  case 0
  then show ?case by simp
next
  case (Suc n)
  show ?case
  proof (cases e)
    case nil
    with Suc.prems show ?thesis by simp
  next
    case (errorString x)
    then show ?thesis by (simp add: ends.intros)
  next
    case (PtrError a)
    with Suc.prems have lt: "a < length (errors s)" by (auto split: if_splits)
    show ?thesis
    proof (cases "Err (errors s ! a) = nil")
      case True
      with lt PtrError show ?thesis by (simp add: ends.intros)
    next
      case False
      with Suc.prems PtrError lt obtain t where "error_text n s (Err (errors s ! a)) = Some t"
        by (auto simp add: Let_def split: option.splits)
      from Suc.IH [OF this] lt PtrError show ?thesis by (simp add: ends.intros)
    qed
  next
    case (PtrHTTPErr b)
    with Suc.prems have lt: "b < length (httperrs s)" by (auto split: if_splits)
    show ?thesis
    proof (cases "hErr (httperrs s ! b) = nil")
      case True
      with lt PtrHTTPErr show ?thesis by (simp add: ends.intros)
    next
      case False
      with Suc.prems PtrHTTPErr lt have "error_text n s (hErr (httperrs s ! b)) = Some m"
        by simp
      from Suc.IH [OF this] lt PtrHTTPErr show ?thesis by (simp add: ends.intros)
    qed
  qed
qed

text \<open>
  The fuel of \<open>error_Error\<close> is enough. With the least fuel \<open>k\<close> that gives a message,
  the chain passes \<open>k - 1\<close> pointers before it ends, each with a least fuel of its own,
  so they differ from one another; the store has no more than
  \<open>length (errors s) + length (httperrs s)\<close> pointers.
\<close>

lemma error_text_None_mono:
  "error_text k s e = None \<Longrightarrow> j \<le> k \<Longrightarrow> error_text j s e = None"
proof (rule ccontr)
  assume n: "error_text k s e = None" and le: "j \<le> k" and "error_text j s e \<noteq> None"
  then obtain m where "error_text j s e = Some m" by blast
  from error_text_mono [OF this le] n show False by simp
qed

lemma needs_unique: "needs s e k \<Longrightarrow> needs s e k' \<Longrightarrow> k = k'"
  unfolding needs_def by (metis linorder_neqE_nat)

lemma needs_exists:
  assumes "error_text n s e = Some m"
  shows "\<exists>k. needs s e k \<and> k \<le> n"
proof -
  let ?P = "\<lambda>k. error_text k s e \<noteq> None"
  have P: "?P n" using assms by simp
  have "?P (LEAST k. ?P k)" using P by (rule LeastI)
  moreover have "\<forall>j < (LEAST k. ?P k). error_text j s e = None"
    using not_less_Least by blast
  moreover have "(LEAST k. ?P k) \<le> n" using P by (rule Least_le)
  ultimately show ?thesis unfolding needs_def by blast
qed

lemma finite_pointers: "finite (pointers s)"
  by (simp add: pointers_def)

lemma card_pointers: "card (pointers s) = length (errors s) + length (httperrs s)"
proof -
  have "card (PtrError ` {..<length (errors s)}) = length (errors s)"
    by (simp add: card_image inj_on_def)
  moreover have "card (PtrHTTPErr ` {..<length (httperrs s)}) = length (httperrs s)"
    by (simp add: card_image inj_on_def)
  moreover have "PtrError ` {..<length (errors s)} \<inter> PtrHTTPErr ` {..<length (httperrs s)} = {}"
    by auto
  ultimately show ?thesis
    by (simp add: pointers_def card_Un_disjoint)
qed

lemma needs_step:
  assumes "needs s e (Suc (Suc j))"
  shows "e \<in> pointers s \<and> needs s (cause s e) (Suc j)"
proof -
  from assms have some: "error_text (Suc (Suc j)) s e \<noteq> None"
    and n1: "error_text (Suc j) s e = None" and n0: "error_text (Suc 0) s e = None"
    unfolding needs_def by auto
  show ?thesis
  proof (cases e)
    case nil
    with some show ?thesis by simp
  next
    case (errorString x)
    with n0 show ?thesis by simp
  next
    case (PtrError a)
    with some have lt: "a < length (errors s)" by (auto split: if_splits)
    with n0 PtrError have c: "Err (errors s ! a) \<noteq> nil" by (auto simp add: Let_def)
    from some PtrError lt c have s1: "error_text (Suc j) s (Err (errors s ! a)) \<noteq> None"
      by (auto simp add: Let_def split: option.splits)
    from n1 PtrError lt c have s0: "error_text j s (Err (errors s ! a)) = None"
      by (cases j) (auto simp add: Let_def split: option.splits)
    have "\<forall>i < Suc j. error_text i s (Err (errors s ! a)) = None"
      using error_text_None_mono [OF s0] by simp
    with s1 lt PtrError show ?thesis
      by (simp add: needs_def cause_def pointers_def)
  next
    case (PtrHTTPErr b)
    with some have lt: "b < length (httperrs s)" by (auto split: if_splits)
    with n0 PtrHTTPErr have c: "hErr (httperrs s ! b) \<noteq> nil" by auto
    from some PtrHTTPErr lt c have s1: "error_text (Suc j) s (hErr (httperrs s ! b)) \<noteq> None"
      by auto
    from n1 PtrHTTPErr lt c have s0: "error_text j s (hErr (httperrs s ! b)) = None"
      by (cases j) auto
    have "\<forall>i < Suc j. error_text i s (hErr (httperrs s ! b)) = None"
      using error_text_None_mono [OF s0] by simp
    with s1 lt PtrHTTPErr show ?thesis
      by (simp add: needs_def cause_def pointers_def)
  qed
qed

lemma needs_chain:
  "needs s e (Suc k) \<Longrightarrow>
     \<exists>A. A \<subseteq> pointers s \<and> card A = k \<and> (\<forall>x\<in>A. \<exists>j. needs s x j \<and> j \<le> Suc k \<and> 2 \<le> j)"
proof (induction k arbitrary: e)
  case 0
  have "{} \<subseteq> pointers s \<and> card ({} :: error set) = 0" by simp
  then show ?case by blast
next
  case (Suc k)
  from needs_step [OF Suc.prems] have e: "e \<in> pointers s"
    and c: "needs s (cause s e) (Suc k)" by simp_all
  from Suc.IH [OF c] obtain A where A: "A \<subseteq> pointers s" "card A = k"
    "\<forall>x\<in>A. \<exists>j. needs s x j \<and> j \<le> Suc k \<and> 2 \<le> j" by blast
  have fin: "finite A" using A(1) finite_pointers by (rule finite_subset)
  have "e \<notin> A"
  proof
    assume "e \<in> A"
    with A(3) obtain j where j: "needs s e j" "j \<le> Suc k" by blast
    from needs_unique [OF Suc.prems j(1)] j(2) show False by simp
  qed
  with fin A(2) have card: "card (insert e A) = Suc k" by simp
  have "\<forall>x\<in>insert e A. \<exists>j. needs s x j \<and> j \<le> Suc (Suc k) \<and> 2 \<le> j"
    using A(3) Suc.prems by (auto intro: le_SucI)
  with e A(1) card show ?case
    by (intro exI [of _ "insert e A"]) simp
qed

lemma error_text_enough:
  assumes "error_text n s e = Some m"
  shows "error_Error s e = Some m"
proof -
  from needs_exists [OF assms] obtain k where k: "needs s e k" "k \<le> n" by blast
  have "k \<noteq> 0"
  proof
    assume "k = 0"
    with k(1) show False by (simp add: needs_def)
  qed
  then obtain k' where k': "k = Suc k'" by (cases k) simp_all
  from needs_chain [OF k(1) [unfolded k']] obtain A where "A \<subseteq> pointers s" "card A = k'"
    by blast
  with card_mono [OF finite_pointers] have "k' \<le> length (errors s) + length (httperrs s)"
    by (metis card_pointers)
  then have le: "k \<le> Suc (length (errors s) + length (httperrs s))" using k' by simp
  from k(1) obtain m' where m': "error_text k s e = Some m'" by (auto simp add: needs_def)
  from error_text_mono [OF m' k(2)] assms have "m' = m" by simp
  with error_text_mono [OF m' le] show ?thesis by (simp add: error_Error_def)
qed

lemma ends_iff: "ends s e \<longleftrightarrow> (\<exists>m. error_Error s e = Some m)"
proof
  assume "ends s e"
  from ends_imp_text [OF this] obtain n m where "error_text n s e = Some m" by blast
  from error_text_enough [OF this] show "\<exists>m. error_Error s e = Some m" by blast
next
  assume "\<exists>m. error_Error s e = Some m"
  then obtain m where "error_Error s e = Some m" by blast
  then show "ends s e" unfolding error_Error_def by (rule text_imp_ends)
qed

lemma not_ends_None: "\<not> ends s e \<Longrightarrow> error_Error s e = None"
  using ends_iff [of s e] by (cases "error_Error s e") auto

section \<open>strings.Index\<close>

lemma strings_Index_ge: "- 1 \<le> strings_Index s sep"
  by (induction s) (auto simp: Let_def)

text \<open>The result is \<open>-1\<close> exactly when \<open>sep\<close> does not occur in \<open>s\<close>.\<close>

lemma strings_Index_absent:
  "strings_Index s sep = - 1 \<longleftrightarrow> \<not> (\<exists>xs ys. s = xs @ sep @ ys)"
proof (induction s)
  case Nil
  then show ?case by auto
next
  case (Cons c cs)
  show ?case
  proof (cases "take (length sep) (c # cs) = sep")
    case True
    then have "c # cs = [] @ sep @ drop (length sep) (c # cs)"
      by (metis append_Nil append_take_drop_id)
    then have "\<exists>xs ys. c # cs = xs @ sep @ ys" by blast
    with True show ?thesis by simp
  next
    case False
    have ge: "- 1 \<le> strings_Index cs sep" by (rule strings_Index_ge)
    have "(\<exists>xs ys. c # cs = xs @ sep @ ys) \<longleftrightarrow> (\<exists>xs ys. cs = xs @ sep @ ys)"
    proof
      assume "\<exists>xs ys. c # cs = xs @ sep @ ys"
      then obtain xs ys where eq: "c # cs = xs @ sep @ ys" by blast
      show "\<exists>xs ys. cs = xs @ sep @ ys"
      proof (cases xs)
        case Nil
        with eq have "take (length sep) (c # cs) = sep" by simp
        with False show ?thesis by simp
      next
        case (Cons x xs')
        with eq have "cs = xs' @ sep @ ys" by simp
        then show ?thesis by blast
      qed
    next
      assume "\<exists>xs ys. cs = xs @ sep @ ys"
      then obtain xs ys where "cs = xs @ sep @ ys" by blast
      then have "c # cs = (c # xs) @ sep @ ys" by simp
      then show "\<exists>xs ys. c # cs = xs @ sep @ ys" by blast
    qed
    with False Cons.IH ge show ?thesis by (auto simp: Let_def)
  qed
qed

text \<open>A result that is not negative is a position where \<open>sep\<close> stands.\<close>

lemma strings_Index_found:
  "0 \<le> strings_Index s sep \<Longrightarrow>
     take (length sep) (drop (nat (strings_Index s sep)) s) = sep"
proof (induction s)
  case Nil
  then show ?case by (auto split: if_splits)
next
  case (Cons c cs)
  show ?case
  proof (cases "take (length sep) (c # cs) = sep")
    case True
    then show ?thesis by simp
  next
    case False
    with Cons.prems have nn: "0 \<le> strings_Index cs sep"
      by (auto simp: Let_def split: if_splits)
    with False have "strings_Index (c # cs) sep = strings_Index cs sep + 1"
      by (simp add: Let_def)
    moreover have "nat (strings_Index cs sep + 1) = Suc (nat (strings_Index cs sep))"
      using nn by simp
    ultimately show ?thesis using Cons.IH [OF nn] by simp
  qed
qed

section \<open>StripStack without a delimiter\<close>

lemma StripStack_other: "\<forall>a. e \<noteq> PtrError a \<Longrightarrow> StripStack s e = Inr e"
  by (cases e) (simp_all add: StripStack_def)

text \<open>
  When the rendering \<open>m\<close> of an \<open>Error\<close> holds no delimiter, \<open>strings.Index\<close> gives
  \<open>-1\<close> and the slice starts at 2: the function panics on a rendering shorter than two
  characters and drops the first two characters of any other.
\<close>

lemma StripStack_no_delimiter:
  assumes "error_Error s (PtrError a) = Some m" and "\<not> (\<exists>xs ys. m = xs @ ''|:'' @ ys)"
  shows "StripStack s (PtrError a) =
           (if 2 \<le> length m then Inr (errorString (drop 2 m)) else Inl SliceBoundsOutOfRange)"
proof -
  from assms(2) have "strings_Index m ''|:'' = - 1"
    using strings_Index_absent [of m "''|:''"] by blast
  with assms(1) show ?thesis
    by (auto simp add: StripStack_def Let_def)
qed

lemma StripStack_no_delimiter_differs:
  assumes "error_Error s (PtrError a) = Some m" and "\<not> (\<exists>xs ys. m = xs @ ''|:'' @ ys)"
  shows "StripStack s (PtrError a) \<noteq> Inr (errorString m)"
proof -
  have "drop 2 m \<noteq> m" if "2 \<le> length m"
  proof
    assume "drop 2 m = m"
    then have "length (drop 2 m) = length m" by simp
    with that show False by simp
  qed
  then show ?thesis
    using StripStack_no_delimiter [OF assms] by auto
qed

text \<open>
  C1. The claim: for an error whose rendering holds no delimiter, \<open>StripStack\<close> does not
  panic and returns an error with the original message. The code at two such inputs:
  the \<open>Error\<close> at address 0 renders as \<open>Validation\<close> and comes back as \<open>lidation\<close>; the
  one at address 3 renders as \<open>p\<close> and the slice expression panics.
\<close>

theorem StripStack_no_delimiter_example:
  "error_Error example_state (PtrError 0) = Some ''Validation''
   \<and> strings_Index ''Validation'' ''|:'' = - 1
   \<and> StripStack example_state (PtrError 0) = Inr (errorString ''lidation'')
   \<and> error_Error example_state (PtrError 3) = Some ''p''
   \<and> strings_Index ''p'' ''|:'' = - 1
   \<and> StripStack example_state (PtrError 3) = Inl SliceBoundsOutOfRange"
  by (simp add: example_state_def error_Error_def StripStack_def Let_def zero_HTTPErr_def)

section \<open>sendError\<close>

text \<open>
  C7, as the claim states it, fails on the second file: with an empty error string its
  \<open>sendError\<close> still sets the Content-Type header, and writes no body.
\<close>

theorem sendError_part_000_content_type_counterexample:
  "writer (sendError_part_000 [] 400 example_state) =
     [Header_Set ''Content-Type'' ''application/json'',
      Header_Set ''X-Content-Type-Options'' ''nosniff'', WriteHeader 400]"
  by (simp add: sendError_part_000_def w_call_def example_state_def)

text \<open>
  C7, amended. Both functions only add calls to the response writer: the header
  X-Content-Type-Options: nosniff, then the status, once, then the error string
  followed by a newline if the string is not empty. \<open>sendError\<close> of httperrors.go sets
  Content-Type: application/json first if the string is not empty; \<open>sendError\<close> of the
  second file sets it first in every case.
\<close>

theorem sendError_contract:
  "sendError errStr code s =
     s\<lparr>writer := writer s
          @ (if errStr = [] then [] else [Header_Set ''Content-Type'' ''application/json''])
          @ [Header_Set ''X-Content-Type-Options'' ''nosniff'', WriteHeader code]
          @ (if errStr = [] then [] else [Write (errStr @ [CHR 0x0A])])\<rparr>
   \<and> sendError_part_000 errStr code s =
     s\<lparr>writer := writer s
          @ [Header_Set ''Content-Type'' ''application/json'',
             Header_Set ''X-Content-Type-Options'' ''nosniff'', WriteHeader code]
          @ (if errStr = [] then [] else [Write (errStr @ [CHR 0x0A])])\<rparr>"
  by (simp add: sendError_def sendError_part_000_def w_call_def Let_def)

section \<open>The nil error\<close>

text \<open>
  C8, as the claim states it, fails on \<open>HTTPError\<close>: its whole body is guarded by
  \<open>err != nil\<close>, so for nil it writes no status and logs nothing.
\<close>

theorem HTTPError_nil_counterexample:
  "HTTPError example_state nil = Inr example_state
   \<and> writer example_state = [] \<and> logged example_state = []"
  by (simp add: HTTPError_def example_state_def)

text \<open>
  C8, amended. For nil, \<open>HTTPErrorResponse\<close> logs "nil error - no response body sent"
  with the status code, sets the nosniff header and writes the status 400, which is the
  table's entry for the zero classification \<open>Other\<close>; it writes no body. \<open>HTTPError\<close>
  leaves the state as it is.
\<close>

theorem nil_error_response:
  "HTTPErrorResponse s nil =
     Inr (s\<lparr>logged := logged s @ [LogError [IntF ''HTTP Error StatusCode'' 400]
                                      ''nil error - no response body sent''],
            writer := writer s @ [Header_Set ''X-Content-Type-Options'' ''nosniff'',
                                  WriteHeader 400]\<rparr>)
   \<and> statusCode_at Other = 400
   \<and> HTTPError s nil = Inr s"
  by (simp add: HTTPErrorResponse_def HTTPError_def Let_def sendError_eq log_write_def
      statusCode_values)

section \<open>Errors the translators do not recognise\<close>

text \<open>
  Both translators call \<open>err.Error()\<close> for the log entry before they write anything:
  the answer is the fixed one when the method returns, and there is none when it does
  not.
\<close>

lemma HTTPErrorResponse_unrecognized:
  assumes "err \<noteq> nil" and "\<forall>a. err \<noteq> PtrError a"
  shows "HTTPErrorResponse s err =
           (case error_Error s err of None \<Rightarrow> Inl ErrorMethodFailed
            | Some m \<Rightarrow> Inr (unanticipated_response m s))"
  using assms
  by (cases err)
     (simp_all add: HTTPErrorResponse_def Let_def itoa_500 sendError_eq log_write_def
        json_Marshal_nonempty unanticipated_body unanticipated_response_def
        split: option.splits del: Kind_String.simps)

lemma HTTPError_unrecognized:
  assumes "err \<noteq> nil" and "\<forall>b. err \<noteq> PtrHTTPErr b"
  shows "HTTPError s err =
           (case error_Error s err of None \<Rightarrow> Inl ErrorMethodFailed
            | Some m \<Rightarrow> Inr (unanticipated_response m s))"
  using assms
  by (cases err)
     (simp_all add: HTTPError_def Let_def itoa_500 sendError_part_000_eq log_write_def
        json_Marshal_nonempty unanticipated_body unanticipated_response_def
        split: option.splits del: Kind_String.simps)

text \<open>
  C6, as the claim states it, fails for a nil pointer to an \<open>HTTPErr\<close>, which is not the
  nil interface and not a pointer to an \<open>Error\<close>: its method \<open>Error()\<close> has a value
  receiver, so the call in \<open>HTTPErrorResponse\<close> does not return, and no response is
  written. The store of the examples has one \<open>HTTPErr\<close>, so the address 7 points to none.
\<close>

theorem unrecognized_error_counterexample:
  "HTTPErrorResponse example_state (PtrHTTPErr 7) = Inl ErrorMethodFailed"
  by (simp add: HTTPErrorResponse_def Let_def error_Error_def example_state_def)

text \<open>
  C6, amended. For an error that is not nil and not a pointer to an \<open>Error\<close> (for
  \<open>HTTPErrorResponse\<close>), or not a pointer to an \<open>HTTPErr\<close> (for \<open>HTTPError\<close>), and whose
  chain of causes ends: the method \<open>Error()\<close> returns a message \<open>m\<close>, and the translator
  returns without a panic, logs \<open>m\<close>, and writes the status 500 and a body that does not
  depend on \<open>m\<close>, with the kind and the code "Unanticipated" and the message
  "Unexpected error - contact support". This holds for every plain error, with no
  condition. For such an error whose chain does not end, the call of \<open>Error()\<close> does
  not return and the translator writes nothing.
\<close>

theorem unrecognized_error:
  "(err \<noteq> nil \<and> (\<forall>a. err \<noteq> PtrError a) \<and> ends s err \<longrightarrow>
      (\<exists>m. error_Error s err = Some m
           \<and> HTTPErrorResponse s err = Inr (unanticipated_response m s)))
   \<and> (err \<noteq> nil \<and> (\<forall>b. err \<noteq> PtrHTTPErr b) \<and> ends s err \<longrightarrow>
      (\<exists>m. error_Error s err = Some m
           \<and> HTTPError s err = Inr (unanticipated_response m s)))
   \<and> HTTPErrorResponse s (errorString t) = Inr (unanticipated_response t s)
   \<and> HTTPError s (errorString t) = Inr (unanticipated_response t s)
   \<and> (err \<noteq> nil \<and> (\<forall>a. err \<noteq> PtrError a) \<and> \<not> ends s err \<longrightarrow>
        HTTPErrorResponse s err = Inl ErrorMethodFailed)
   \<and> (err \<noteq> nil \<and> (\<forall>b. err \<noteq> PtrHTTPErr b) \<and> \<not> ends s err \<longrightarrow>
        HTTPError s err = Inl ErrorMethodFailed)"
proof (intro conjI impI)
  assume h: "err \<noteq> nil \<and> (\<forall>a. err \<noteq> PtrError a) \<and> ends s err"
  then obtain m where m: "error_Error s err = Some m" using ends_iff by blast
  with h HTTPErrorResponse_unrecognized [of err s]
  show "\<exists>m. error_Error s err = Some m
           \<and> HTTPErrorResponse s err = Inr (unanticipated_response m s)" by simp
next
  assume h: "err \<noteq> nil \<and> (\<forall>b. err \<noteq> PtrHTTPErr b) \<and> ends s err"
  then obtain m where m: "error_Error s err = Some m" using ends_iff by blast
  with h HTTPError_unrecognized [of err s]
  show "\<exists>m. error_Error s err = Some m
           \<and> HTTPError s err = Inr (unanticipated_response m s)" by simp
next
  have t: "error_Error s (errorString t) = Some t" by (simp add: error_Error_def)
  show "HTTPErrorResponse s (errorString t) = Inr (unanticipated_response t s)"
    using HTTPErrorResponse_unrecognized [of "errorString t" s] t by simp
  show "HTTPError s (errorString t) = Inr (unanticipated_response t s)"
    using HTTPError_unrecognized [of "errorString t" s] t by simp
next
  assume h: "err \<noteq> nil \<and> (\<forall>a. err \<noteq> PtrError a) \<and> \<not> ends s err"
  with not_ends_None [of s err] HTTPErrorResponse_unrecognized [of err s]
  show "HTTPErrorResponse s err = Inl ErrorMethodFailed" by simp
next
  assume h: "err \<noteq> nil \<and> (\<forall>b. err \<noteq> PtrHTTPErr b) \<and> \<not> ends s err"
  with not_ends_None [of s err] HTTPError_unrecognized [of err s]
  show "HTTPError s err = Inl ErrorMethodFailed" by simp
qed

theorem unrecognized_error_witness:
  "ends example_state (errorString ''connection refused'')
   \<and> HTTPErrorResponse example_state (errorString ''connection refused'')
       = Inr (unanticipated_response ''connection refused'' example_state)
   \<and> ends example_state (PtrError 1)
   \<and> HTTPError example_state (PtrError 1)
       = Inr (unanticipated_response ''svc.GetValidationE42id|: boom'' example_state)
   \<and> \<not> ends example_state (PtrHTTPErr 7)
   \<and> HTTPErrorResponse example_state (PtrHTTPErr 7) = Inl ErrorMethodFailed"
proof -
  have e1: "ends example_state (errorString ''connection refused'')"
    by (rule ends_errorString)
  have l: "1 < length (errors example_state)"
    "Err (errors example_state ! 1) = errorString ''boom''"
    by (simp_all add: example_state_def)
  have e2: "ends example_state (PtrError 1)"
    by (rule ends_Error) (use l in \<open>simp_all add: ends_errorString\<close>)
  have m1: "error_Error example_state (errorString ''connection refused'')
              = Some ''connection refused''"
    by (simp add: error_Error_def)
  have m2: "error_Error example_state (PtrError 1) = Some ''svc.GetValidationE42id|: boom''"
    by (simp add: error_Error_def example_state_def zero_HTTPErr_def)
  have "error_Error example_state (PtrHTTPErr 7) = None"
    by (simp add: error_Error_def example_state_def)
  then have e3: "\<not> ends example_state (PtrHTTPErr 7)" by (simp add: ends_iff)
  show ?thesis
    using unrecognized_error [of "errorString ''connection refused''" example_state
            "''connection refused''"]
      unrecognized_error [of "PtrError 1" example_state "''x''"]
      unrecognized_error [of "PtrHTTPErr 7" example_state "''x''"] e1 e2 e3 m1 m2
    by auto
qed

section \<open>Failed authentication and authorisation\<close>

lemma HTTPErrorResponse_auth:
  assumes "a < length (errors s)"
    and "\<not> isZero (errors s ! a)"
    and "Kind (errors s ! a) = Unauthenticated \<or> Kind (errors s ! a) = Unauthorized"
  shows "HTTPErrorResponse s (PtrError a) =
     (case error_Error s (PtrError a) of
        None \<Rightarrow> Inl ErrorMethodFailed
      | Some m \<Rightarrow>
          Inr (s\<lparr>logged := logged s @
                   [LogError [IntF ''HTTP Error StatusCode''
                      (if Kind (errors s ! a) = Unauthenticated then 401 else 403)] m],
                 writer := writer s @
                   [Header_Set ''X-Content-Type-Options'' ''nosniff'',
                    WriteHeader (if Kind (errors s ! a) = Unauthenticated then 401 else 403)]\<rparr>))"
  using assms
  by (auto simp add: HTTPErrorResponse_def Let_def sendError_eq log_write_def statusCode_values
      split: option.splits)

text \<open>
  C5, as the claim states it, fails for a cause that is a nil pointer: the \<open>Error\<close> of
  the second store is not zero and has the classification \<open>Unauthenticated\<close>, and
  \<open>HTTPErrorResponse\<close> calls \<open>e.Error()\<close> for the log entry, which does not return.
\<close>

theorem auth_errors_counterexample:
  "\<not> isZero (errors nil_cause_state ! 0)
   \<and> Kind (errors nil_cause_state ! 0) = Unauthenticated
   \<and> HTTPErrorResponse nil_cause_state (PtrError 0) = Inl ErrorMethodFailed"
  by (simp add: nil_cause_state_def isZero_def HTTPErrorResponse_def Let_def error_Error_def)

text \<open>
  C5, amended. For an \<open>Error\<close> that is not zero and whose classification is
  \<open>Unauthenticated\<close> or \<open>Unauthorized\<close>: if its chain of causes ends, then, whatever its
  code, its parameter and its cause, its rendering \<open>m\<close> exists and \<open>HTTPErrorResponse\<close>
  logs \<open>m\<close> with the status code, and writes the nosniff header and the status, 401 or
  403, and no body. If the chain does not end, the call of \<open>e.Error()\<close> does not return
  and nothing is written.
\<close>

theorem auth_errors_status_only:
  assumes "a < length (errors s)"
    and "\<not> isZero (errors s ! a)"
    and "Kind (errors s ! a) = Unauthenticated \<or> Kind (errors s ! a) = Unauthorized"
  shows "(ends s (PtrError a) \<longrightarrow>
      (\<exists>m. error_Error s (PtrError a) = Some m
         \<and> HTTPErrorResponse s (PtrError a) =
             Inr (s\<lparr>logged := logged s @
                      [LogError [IntF ''HTTP Error StatusCode''
                         (if Kind (errors s ! a) = Unauthenticated then 401 else 403)] m],
                    writer := writer s @
                      [Header_Set ''X-Content-Type-Options'' ''nosniff'',
                       WriteHeader
                         (if Kind (errors s ! a) = Unauthenticated then 401 else 403)]\<rparr>)))
   \<and> (\<not> ends s (PtrError a) \<longrightarrow> HTTPErrorResponse s (PtrError a) = Inl ErrorMethodFailed)"
proof (intro conjI impI)
  assume "ends s (PtrError a)"
  then obtain m where m: "error_Error s (PtrError a) = Some m" using ends_iff by blast
  with HTTPErrorResponse_auth [OF assms]
  show "\<exists>m. error_Error s (PtrError a) = Some m
         \<and> HTTPErrorResponse s (PtrError a) =
             Inr (s\<lparr>logged := logged s @
                      [LogError [IntF ''HTTP Error StatusCode''
                         (if Kind (errors s ! a) = Unauthenticated then 401 else 403)] m],
                    writer := writer s @
                      [Header_Set ''X-Content-Type-Options'' ''nosniff'',
                       WriteHeader
                         (if Kind (errors s ! a) = Unauthenticated then 401 else 403)]\<rparr>)"
    by simp
next
  assume "\<not> ends s (PtrError a)"
  with not_ends_None [of s "PtrError a"] HTTPErrorResponse_auth [OF assms]
  show "HTTPErrorResponse s (PtrError a) = Inl ErrorMethodFailed" by simp
qed

theorem auth_errors_status_only_witness:
  "4 < length (errors example_state)
   \<and> \<not> isZero (errors example_state ! 4)
   \<and> Kind (errors example_state ! 4) = Unauthenticated
   \<and> Code (errors example_state ! 4) = ''E7''
   \<and> ends example_state (PtrError 4)
   \<and> HTTPErrorResponse example_state (PtrError 4) =
       Inr (example_state
              \<lparr>logged := [LogError [IntF ''HTTP Error StatusCode'' 401]
                            ''auth.CheckUnauthenticatedE7token|: expired''],
               writer := [Header_Set ''X-Content-Type-Options'' ''nosniff'',
                          WriteHeader 401]\<rparr>)"
proof -
  have h1: "4 < length (errors example_state)"
    by (simp add: example_state_def)
  have h2: "\<not> isZero (errors example_state ! 4)"
    by (simp add: example_state_def isZero_def)
  have h3: "Kind (errors example_state ! 4) = Unauthenticated"
    by (simp add: example_state_def)
  have c: "Err (errors example_state ! 4) = errorString ''expired''"
    by (simp add: example_state_def)
  have h4: "ends example_state (PtrError 4)"
    by (rule ends_Error) (use h1 c in \<open>simp_all add: ends_errorString\<close>)
  have m: "error_Error example_state (PtrError 4)
              = Some ''auth.CheckUnauthenticatedE7token|: expired''"
    by (simp add: example_state_def error_Error_def zero_HTTPErr_def)
  have e: "logged example_state = []" "writer example_state = []"
      "Code (errors example_state ! 4) = ''E7''"
    by (simp_all add: example_state_def)
  from h3 have h3': "Kind (errors example_state ! 4) = Unauthenticated
                      \<or> Kind (errors example_state ! 4) = Unauthorized" by simp
  show ?thesis
    using auth_errors_status_only [OF h1 h2 h3'] h1 h2 h3 h4 m e by auto
qed

section \<open>An error with a classification only\<close>

lemma kind_only_zero:
  assumes "a < length (errors s)"
    and "errors s ! a = \<lparr>Location = [], Kind = Other, Param = [], Code = [], Err = nil,
                           StripError = False\<rparr>"
  shows "HTTPErrorResponse s (PtrError a) =
     Inr (s\<lparr>logged := logged s @ [LogError [IntF ''HTTP Error StatusCode'' 400] []],
            writer := writer s @ [Header_Set ''X-Content-Type-Options'' ''nosniff'',
                                  WriteHeader 400]\<rparr>)"
  using assms
  by (simp add: HTTPErrorResponse_def Let_def isZero_def sendError_eq log_write_def
      statusCode_values)

lemma kind_only_auth:
  assumes "a < length (errors s)"
    and "errors s ! a = \<lparr>Location = [], Kind = K, Param = [], Code = [], Err = nil,
                           StripError = False\<rparr>"
    and "K = Unauthenticated \<or> K = Unauthorized"
  shows "HTTPErrorResponse s (PtrError a) =
     Inr (s\<lparr>logged := logged s @
              [LogError [IntF ''HTTP Error StatusCode'' (statusCode_at K)] (Kind_String K)],
            writer := writer s @ [Header_Set ''X-Content-Type-Options'' ''nosniff'',
                                  WriteHeader (statusCode_at K)]\<rparr>)"
  using assms
  by (auto simp add: HTTPErrorResponse_def Let_def isZero_def sendError_eq log_write_def
      statusCode_values error_Error_def)

lemma kind_only_body:
  assumes "a < length (errors s)"
    and "errors s ! a = \<lparr>Location = [], Kind = K, Param = [], Code = [], Err = nil,
                           StripError = False\<rparr>"
    and "K \<noteq> Other" "K \<noteq> Unauthenticated" "K \<noteq> Unauthorized"
  shows "\<exists>s'. HTTPErrorResponse s (PtrError a) = Inr s'
     \<and> writer s' = writer s @
          [Header_Set ''Content-Type'' ''application/json'',
           Header_Set ''X-Content-Type-Options'' ''nosniff'', WriteHeader (statusCode_at K),
           Write (json_Marshal
                    \<lparr>Error_field =
                       \<lparr>seKind = Kind_String K, seCode = [], seParam = [],
                        seMessage = Kind_String K @ ''|: '' @ Kind_String K @ ''|: ''
                                    @ drop 2 (Kind_String K)\<rparr>\<rparr> @ [CHR 0x0A])]"
proof -
  have pos: "0 < length (errors s) + length (httperrs s)" using assms(1) by (cases "errors s") simp_all
  show ?thesis
  using assms Kind_String_plain [of K]
  by (simp add: HTTPErrorResponse_def Let_def isZero_def sendError_eq log_write_def
      copy_Error_def set_Error_def error_Error_def StripStack_def nth_append
      error_text_errorString [OF pos] json_Marshal_nonempty
      del: Kind_String.simps)
qed

text \<open>
  C4, as the claim states it, fails for a classification such as \<open>Validation\<close>: the
  \<open>Error\<close> at address 0 has this classification and no other field, it is not zero, and
  the translator writes a JSON body with its kind and a message.
\<close>

theorem kind_only_response_counterexample:
  \<open>map_sum id writer (HTTPErrorResponse example_state (PtrError 0)) =
     Inr [Header_Set ''Content-Type'' ''application/json'',
          Header_Set ''X-Content-Type-Options'' ''nosniff'', WriteHeader 400,
          Write (''{"error":{"kind":"Validation","message":"Validation|: Validation|: lidation"}}''
                 @ [CHR 0x0A])]\<close>
  by (simp add: example_state_def HTTPErrorResponse_def Let_def isZero_def sendError_eq
      log_write_def copy_Error_def set_Error_def error_Error_def StripStack_def
      statusCode_values zero_HTTPErr_def json_Marshal_def json_ServiceError_def
      json_member_def json_string_def json_escape_def)

text \<open>
  C4, amended. For an \<open>Error\<close> with the classification \<open>K\<close> and every other field zero,
  \<open>HTTPErrorResponse\<close> returns without a panic and writes the status of the fixed
  mapping for \<open>K\<close>, once. It writes no body when \<open>K\<close> is \<open>Other\<close> (the value is zero),
  \<open>Unauthenticated\<close> or \<open>Unauthorized\<close>; for the other twelve classifications it writes
  a JSON body that carries the name of \<open>K\<close> as its kind and a message.
\<close>

theorem kind_only_response:
  assumes "a < length (errors s)"
    and "errors s ! a = \<lparr>Location = [], Kind = K, Param = [], Code = [], Err = nil,
                           StripError = False\<rparr>"
  shows "statusCode_at K = fixed_mapping K
     \<and> (\<exists>s' msg. HTTPErrorResponse s (PtrError a) = Inr s'
          \<and> writer s' = writer s @
              (if K = Other \<or> K = Unauthenticated \<or> K = Unauthorized
               then [Header_Set ''X-Content-Type-Options'' ''nosniff'',
                     WriteHeader (fixed_mapping K)]
               else [Header_Set ''Content-Type'' ''application/json'',
                     Header_Set ''X-Content-Type-Options'' ''nosniff'',
                     WriteHeader (fixed_mapping K),
                     Write (json_Marshal
                              \<lparr>Error_field = \<lparr>seKind = Kind_String K, seCode = [],
                                               seParam = [], seMessage = msg\<rparr>\<rparr>
                            @ [CHR 0x0A])]))"
proof -
  have m: "statusCode_at K = fixed_mapping K" by (rule statusCode_at_fixed)
  consider "K = Other" | "K = Unauthenticated \<or> K = Unauthorized"
    | "K \<noteq> Other" "K \<noteq> Unauthenticated" "K \<noteq> Unauthorized" by blast
  then show ?thesis
  proof cases
    case 1
    with kind_only_zero [of a s] assms m show ?thesis
      by (simp add: statusCode_values)
  next
    case 2
    with kind_only_auth [OF assms] m show ?thesis by auto
  next
    case 3
    with kind_only_body [OF assms] m show ?thesis by auto
  qed
qed

theorem kind_only_response_witness:
  "0 < length (errors example_state)
   \<and> errors example_state ! 0 = \<lparr>Location = [], Kind = Validation, Param = [], Code = [],
                                   Err = nil, StripError = False\<rparr>
   \<and> statusCode_at Validation = 400
   \<and> (\<exists>s' msg. HTTPErrorResponse example_state (PtrError 0) = Inr s'
        \<and> writer s' =
             [Header_Set ''Content-Type'' ''application/json'',
              Header_Set ''X-Content-Type-Options'' ''nosniff'',
              WriteHeader 400,
              Write (json_Marshal
                       \<lparr>Error_field = \<lparr>seKind = ''Validation'', seCode = [],
                                        seParam = [], seMessage = msg\<rparr>\<rparr>
                     @ [CHR 0x0A])])"
proof -
  have h1: "0 < length (errors example_state)"
    by (simp add: example_state_def)
  have h2: "errors example_state ! 0 = \<lparr>Location = [], Kind = Validation, Param = [],
              Code = [], Err = nil, StripError = False\<rparr>"
    by (simp add: example_state_def)
  have e: "writer example_state = []" "fixed_mapping Validation = 400"
    by (simp_all add: example_state_def fixed_mapping_def)
  show ?thesis
    using kind_only_response [OF h1 h2] h1 h2 e by simp
qed

section \<open>StatusOnly\<close>

text \<open>
  C10. \<open>StatusOnly\<close> holds exactly when the status code is not zero, the classification
  is the zero value and the parameter, the code and the cause are empty. So the zero
  \<open>HTTPErr\<close> is not status-only, and \<open>HTTPError\<close> writes a JSON body for it.
\<close>

theorem StatusOnly_iff:
  \<open>(StatusOnly hse \<longleftrightarrow>
      HTTPStatusCode hse \<noteq> 0 \<and> hKind hse = Other \<and> hParam hse = [] \<and> hCode hse = []
      \<and> hErr hse = nil)
   \<and> \<not> StatusOnly zero_HTTPErr
   \<and> (b < length (httperrs s) \<and> httperrs s ! b = zero_HTTPErr \<longrightarrow>
        HTTPError s (PtrHTTPErr b) =
          Inr (s\<lparr>logged := logged s @ [LogError [] ''HTTP 0 - ''],
                 writer := writer s @
                   [Header_Set ''Content-Type'' ''application/json'',
                    Header_Set ''X-Content-Type-Options'' ''nosniff'', WriteHeader 0,
                    Write (''{"error":{}}'' @ [CHR 0x0A])]\<rparr>))\<close>
  by (simp add: StatusOnly_def zero_HTTPErr_def HTTPError_def Let_def error_Error_def
      Status_def ErrKind_def ErrCode_def ErrParam_def itoa_0 sendError_part_000_eq
      log_write_def json_Marshal_nonempty empty_body)

theorem StatusOnly_iff_witness:
  \<open>0 < length (httperrs example_state) \<and> httperrs example_state ! 0 = zero_HTTPErr
   \<and> \<not> StatusOnly (httperrs example_state ! 0)
   \<and> HTTPError example_state (PtrHTTPErr 0) =
       Inr (example_state
              \<lparr>logged := [LogError [] ''HTTP 0 - ''],
               writer :=
                 [Header_Set ''Content-Type'' ''application/json'',
                  Header_Set ''X-Content-Type-Options'' ''nosniff'', WriteHeader 0,
                  Write (''{"error":{}}'' @ [CHR 0x0A])]\<rparr>)\<close>
proof -
  have h: "0 < length (httperrs example_state)" "httperrs example_state ! 0 = zero_HTTPErr"
      "logged example_state = []" "writer example_state = []"
    by (simp_all add: example_state_def)
  show ?thesis
    using StatusOnly_iff [of zero_HTTPErr 0 example_state] h by auto
qed

section \<open>The value passed by the caller\<close>

text \<open>
  In its last branch \<open>HTTPErrorResponse\<close> leaves the object of the caller with its
  cause replaced by a pointer to the copy; every other object is as before.
\<close>

lemma HTTPErrorResponse_body_branch:
  assumes "a < length (errors s)" and "\<not> isZero (errors s ! a)"
    and "Kind (errors s ! a) \<noteq> Unauthenticated" and "Kind (errors s ! a) \<noteq> Unauthorized"
    and "HTTPErrorResponse s (PtrError a) = Inr s'"
  shows "errors s' ! a = (errors s ! a)\<lparr>Err := PtrError (length (errors s))\<rparr>"
  using assms
  by (auto simp add: HTTPErrorResponse_def Let_def copy_Error_def set_Error_def
      log_write_def nth_append split: option.splits sum.splits)

lemma HTTPErrorResponse_frame:
  assumes "HTTPErrorResponse s err = Inr s'" and "b < length (errors s)"
    and "err \<noteq> PtrError b"
  shows "errors s' ! b = errors s ! b"
proof (cases err)
  case (PtrError a)
  with assms(3) have ne: "a \<noteq> b" by simp
  from assms(1,2) PtrError ne show ?thesis
    by (auto simp add: HTTPErrorResponse_def Let_def copy_Error_def set_Error_def
        log_write_def nth_append split: option.splits sum.splits if_splits)
qed (use assms in \<open>auto simp add: HTTPErrorResponse_def Let_def split: option.splits\<close>)

text \<open>
  C2. The claim: after the call the value of the caller has every field as before. The
  code at the \<open>Error\<close> of address 1, which wraps the plain error \<open>boom\<close>: after
  \<open>HTTPErrorResponse\<close> its cause is a pointer to the new object at address 5, the
  stripped copy; the other objects are as before.
\<close>

theorem HTTPErrorResponse_changes_caller_value:
  "errors example_state ! 1 =
     \<lparr>Location = ''svc.Get'', Kind = Validation, Param = ''id'', Code = ''E42'',
      Err = errorString ''boom'', StripError = False\<rparr>
   \<and> errors_after (HTTPErrorResponse example_state (PtrError 1)) =
     Some [\<lparr>Location = [], Kind = Validation, Param = [], Code = [], Err = nil,
            StripError = False\<rparr>,
           \<lparr>Location = ''svc.Get'', Kind = Validation, Param = ''id'', Code = ''E42'',
            Err = PtrError 5, StripError = False\<rparr>,
           \<lparr>Location = ''db.Query'', Kind = Database, Param = [], Code = [],
            Err = errorString ''boom'', StripError = False\<rparr>,
           \<lparr>Location = [], Kind = Other, Param = ''p'', Code = [], Err = nil,
            StripError = False\<rparr>,
           \<lparr>Location = ''auth.Check'', Kind = Unauthenticated, Param = ''token'',
            Code = ''E7'', Err = errorString ''expired'', StripError = False\<rparr>,
           \<lparr>Location = ''svc.Get'', Kind = Validation, Param = ''id'', Code = ''E42'',
            Err = errorString ''boom'', StripError = True\<rparr>]"
  by (simp add: example_state_def HTTPErrorResponse_def Let_def isZero_def sendError_eq
      log_write_def copy_Error_def set_Error_def error_Error_def StripStack_def
      zero_HTTPErr_def errors_after_def)

text \<open>
  \<open>RE\<close> keeps the other half of the claim: it writes only to copies, so every object
  that exists before the call is the same after it.
\<close>

lemma RE_arg_Built:
  assumes "RE_arg s e x = Built e' s'"
  shows "length (errors s) \<le> length (errors s')"
    and "\<forall>a < length (errors s). errors s' ! a = errors s ! a"
    and "\<forall>p. hErr e' = PtrError p \<longrightarrow>
           hErr e = PtrError p \<or> (length (errors s) \<le> p \<and> p < length (errors s'))"
proof -
  have "length (errors s) \<le> length (errors s')
      \<and> (\<forall>a < length (errors s). errors s' ! a = errors s ! a)
      \<and> (\<forall>p. hErr e' = PtrError p \<longrightarrow>
           hErr e = PtrError p \<or> (length (errors s) \<le> p \<and> p < length (errors s')))"
  proof (cases x)
    case (Error_arg err)
    with assms show ?thesis
      by (cases err)
         (auto simp add: Let_def copy_Error_def set_Error_def log_write_def nth_append
           split: option.splits sum.splits if_splits)
  qed (use assms in auto)
  then show "length (errors s) \<le> length (errors s')"
    and "\<forall>a < length (errors s). errors s' ! a = errors s ! a"
    and "\<forall>p. hErr e' = PtrError p \<longrightarrow>
           hErr e = PtrError p \<or> (length (errors s) \<le> p \<and> p < length (errors s'))"
    by blast+
qed

lemma RE_arg_Returned: "RE_arg s e x = Returned r s' \<Longrightarrow> errors s' = errors s"
proof (cases x)
  case (Error_arg err)
  assume "RE_arg s e x = Returned r s'"
  with Error_arg show ?thesis
    by (cases err)
       (auto simp add: Let_def log_write_def split: option.splits sum.splits if_splits)
qed (auto simp add: log_write_def)

lemma RE_loop_Built:
  assumes "RE_loop s e args = Built e' s'"
    and "n \<le> length (errors s)"
    and "\<forall>p. hErr e = PtrError p \<longrightarrow> n \<le> p \<and> p < length (errors s)"
  shows "n \<le> length (errors s')
     \<and> (\<forall>a < n. errors s' ! a = errors s ! a)
     \<and> (\<forall>p. hErr e' = PtrError p \<longrightarrow> n \<le> p \<and> p < length (errors s'))"
  using assms
proof (induction args arbitrary: s e)
  case Nil
  then show ?case by simp
next
  case (Cons x xs)
  from Cons.prems(1) obtain e1 s1 where step: "RE_arg s e x = Built e1 s1"
    and rest: "RE_loop s1 e1 xs = Built e' s'"
    by (auto split: loop_result.splits)
  note f = RE_arg_Built [OF step]
  have n1: "n \<le> length (errors s1)" using f(1) Cons.prems(2) by simp
  have p1: "\<forall>p. hErr e1 = PtrError p \<longrightarrow> n \<le> p \<and> p < length (errors s1)"
    using f(1,3) Cons.prems(2,3) by (metis le_trans less_le_trans)
  from Cons.IH [OF rest n1 p1] f(2) Cons.prems(2) show ?case by auto
qed

lemma RE_loop_Returned:
  assumes "RE_loop s e args = Returned r s'" and "n \<le> length (errors s)"
  shows "\<forall>a < n. errors s' ! a = errors s ! a"
  using assms
proof (induction args arbitrary: s e)
  case Nil
  then show ?case by simp
next
  case (Cons x xs)
  show ?case
  proof (cases "RE_arg s e x")
    case (Panicked p)
    with Cons.prems show ?thesis by simp
  next
    case (Returned r1 s1)
    with Cons.prems RE_arg_Returned [OF Returned] show ?thesis by simp
  next
    case (Built e1 s1)
    note f = RE_arg_Built [OF Built]
    from Built Cons.prems(1) have rest: "RE_loop s1 e1 xs = Returned r s'" by simp
    have "n \<le> length (errors s1)" using f(1) Cons.prems(2) by simp
    from Cons.IH [OF rest this] f(2) Cons.prems(2) show ?thesis by auto
  qed
qed

lemma merge_Kind_frame:
  "merge_Kind p (e, s) = (e', s') \<Longrightarrow> a \<noteq> p \<Longrightarrow> errors s' ! a = errors s ! a"
  by (auto simp add: merge_Kind_def Let_def set_Error_def split: if_splits)

lemma merge_Code_frame:
  "merge_Code p (e, s) = (e', s') \<Longrightarrow> a \<noteq> p \<Longrightarrow> errors s' ! a = errors s ! a"
  by (auto simp add: merge_Code_def Let_def set_Error_def split: if_splits)

lemma merge_Param_frame:
  "merge_Param p (e, s) = (e', s') \<Longrightarrow> a \<noteq> p \<Longrightarrow> errors s' ! a = errors s ! a"
  by (auto simp add: merge_Param_def Let_def set_Error_def split: if_splits)

lemma RE_merge_frame:
  assumes "RE_merge s e = Inr (r, s')"
    and "\<forall>p. hErr e = PtrError p \<longrightarrow> n \<le> p"
    and "a < n"
  shows "errors s' ! a = errors s ! a"
proof (cases "hErr e")
  case (PtrError p)
  with assms(2,3) have ne: "a \<noteq> p" by auto
  obtain e1 t1 where k: "merge_Kind p (e, s) = (e1, t1)" by (cases "merge_Kind p (e, s)")
  obtain e2 t2 where c: "merge_Code p (e1, t1) = (e2, t2)" by (cases "merge_Code p (e1, t1)")
  obtain e3 t3 where q: "merge_Param p (e2, t2) = (e3, t3)" by (cases "merge_Param p (e2, t2)")
  from assms(1) PtrError k c q have "errors s' = errors t3"
    by (auto simp add: RE_merge_def RE_return_def split: if_splits)
  with merge_Kind_frame [OF k ne] merge_Code_frame [OF c ne] merge_Param_frame [OF q ne]
  show ?thesis by simp
qed (use assms(1) in \<open>auto simp add: RE_merge_def RE_return_def\<close>)

lemma RE_preserves_arguments:
  assumes "RE s args = Inr (r, s')" and "a < length (errors s)"
  shows "errors s' ! a = errors s ! a"
proof (cases "RE_loop s zero_HTTPErr args")
  case (Panicked p)
  with assms(1) show ?thesis by (simp add: RE_def split: if_splits)
next
  case (Returned r1 s1)
  with assms(1) have "s' = s1" by (simp add: RE_def split: if_splits)
  with RE_loop_Returned [OF Returned le_refl] assms(2) show ?thesis by simp
next
  case (Built e1 s1)
  have z: "\<forall>p. hErr zero_HTTPErr = PtrError p \<longrightarrow>
             length (errors s) \<le> p \<and> p < length (errors s)"
    by (simp add: zero_HTTPErr_def)
  note f = RE_loop_Built [OF Built le_refl z]
  from Built assms(1) have m: "RE_merge s1 e1 = Inr (r, s')"
    by (simp add: RE_def split: if_splits)
  have "errors s' ! a = errors s1 ! a"
    using RE_merge_frame [OF m _ assms(2)] f by blast
  with f assms(2) show ?thesis by simp
qed

section \<open>The suppression of duplicates in RE\<close>

lemma merge_Kind_result:
  assumes "p < length (errors s)" and "merge_Kind p (e, s) = (e', s')"
  shows "hKind e' = (if hKind e = Other then Kind (errors s ! p) else hKind e)"
    and "Kind (errors s' ! p)
          = (if Kind (errors s ! p) = hKind e \<or> hKind e = Other then Other
             else Kind (errors s ! p))"
    and "e' = e\<lparr>hKind := hKind e'\<rparr>"
    and "s' = s\<lparr>errors := (errors s)[p := (errors s ! p)\<lparr>Kind := Kind (errors s' ! p)\<rparr>]\<rparr>"
  using assms
  by (auto simp add: merge_Kind_def Let_def set_Error_def split: if_splits)

lemma merge_Code_result:
  assumes "p < length (errors s)" and "merge_Code p (e, s) = (e', s')"
  shows "hCode e' = (if hCode e = [] then Code (errors s ! p) else hCode e)"
    and "Code (errors s' ! p)
          = (if Code (errors s ! p) = hCode e \<or> hCode e = [] then []
             else Code (errors s ! p))"
    and "e' = e\<lparr>hCode := hCode e'\<rparr>"
    and "s' = s\<lparr>errors := (errors s)[p := (errors s ! p)\<lparr>Code := Code (errors s' ! p)\<rparr>]\<rparr>"
  using assms
  by (auto simp add: merge_Code_def Let_def set_Error_def split: if_splits)

lemma merge_Param_result:
  assumes "p < length (errors s)" and "merge_Param p (e, s) = (e', s')"
  shows "hParam e' = (if hParam e = [] then Param (errors s ! p) else hParam e)"
    and "Param (errors s' ! p)
          = (if Param (errors s ! p) = hParam e \<or> hParam e = [] then []
             else Param (errors s ! p))"
    and "e' = e\<lparr>hParam := hParam e'\<rparr>"
    and "s' = s\<lparr>errors := (errors s)[p := (errors s ! p)\<lparr>Param := Param (errors s' ! p)\<rparr>]\<rparr>"
  using assms
  by (auto simp add: merge_Param_def Let_def set_Error_def split: if_splits)

lemma RE_merge_result:
  assumes "hErr cur = PtrError p" and "p < length (errors s1)"
  shows "\<exists>s2. RE_merge s1 cur = Inr (PtrHTTPErr (length (httperrs s1)), s2)
     \<and> length (httperrs s1) < length (httperrs s2)
     \<and> p < length (errors s2)
     \<and> hKind (httperrs s2 ! length (httperrs s1))
          = (if hKind cur = Other then Kind (errors s1 ! p) else hKind cur)
     \<and> Kind (errors s2 ! p)
          = (if Kind (errors s1 ! p) = hKind cur \<or> hKind cur = Other then Other
             else Kind (errors s1 ! p))
     \<and> hCode (httperrs s2 ! length (httperrs s1))
          = (if hCode cur = [] then Code (errors s1 ! p) else hCode cur)
     \<and> Code (errors s2 ! p)
          = (if Code (errors s1 ! p) = hCode cur \<or> hCode cur = [] then []
             else Code (errors s1 ! p))
     \<and> hParam (httperrs s2 ! length (httperrs s1))
          = (if hParam cur = [] then Param (errors s1 ! p) else hParam cur)
     \<and> Param (errors s2 ! p)
          = (if Param (errors s1 ! p) = hParam cur \<or> hParam cur = [] then []
             else Param (errors s1 ! p))
     \<and> HTTPStatusCode (httperrs s2 ! length (httperrs s1)) = HTTPStatusCode cur
     \<and> hErr (httperrs s2 ! length (httperrs s1)) = PtrError p
     \<and> Location (errors s2 ! p) = Location (errors s1 ! p)
     \<and> Err (errors s2 ! p) = Err (errors s1 ! p)
     \<and> StripError (errors s2 ! p) = StripError (errors s1 ! p)"
proof -
  obtain e1 t1 where k: "merge_Kind p (cur, s1) = (e1, t1)" by (cases "merge_Kind p (cur, s1)")
  obtain e2 t2 where c: "merge_Code p (e1, t1) = (e2, t2)" by (cases "merge_Code p (e1, t1)")
  obtain e3 t3 where q: "merge_Param p (e2, t2) = (e3, t3)" by (cases "merge_Param p (e2, t2)")
  note K = merge_Kind_result [OF assms(2) k]
  have l1: "p < length (errors t1)" by (subst K(4)) (simp add: assms(2))
  note C = merge_Code_result [OF l1 c]
  have l2: "p < length (errors t2)" by (subst C(4)) (simp add: l1)
  note P = merge_Param_result [OF l2 q]
  have l3: "p < length (errors t3)" by (subst P(4)) (simp add: l2)
  have r: "RE_merge s1 cur = Inr (PtrHTTPErr (length (httperrs t3)), t3\<lparr>httperrs := httperrs t3 @ [e3]\<rparr>)"
    using assms k c q by (simp add: RE_merge_def RE_return_def)
  have h: "httperrs t3 = httperrs s1"
    by (subst P(4), subst C(4), subst K(4)) simp
  have e1f: "hCode e1 = hCode cur" "hParam e1 = hParam cur" "HTTPStatusCode e1 = HTTPStatusCode cur"
      "hErr e1 = hErr cur"
    by (subst K(3), simp)+
  have e2f: "hKind e2 = hKind e1" "hParam e2 = hParam e1" "HTTPStatusCode e2 = HTTPStatusCode e1"
      "hErr e2 = hErr e1"
    by (subst C(3), simp)+
  have e3f: "hKind e3 = hKind e2" "hCode e3 = hCode e2" "HTTPStatusCode e3 = HTTPStatusCode e2"
      "hErr e3 = hErr e2"
    by (subst P(3), simp)+
  have t1f: "Code (errors t1 ! p) = Code (errors s1 ! p)" "Param (errors t1 ! p) = Param (errors s1 ! p)"
      "Location (errors t1 ! p) = Location (errors s1 ! p)" "Err (errors t1 ! p) = Err (errors s1 ! p)"
      "StripError (errors t1 ! p) = StripError (errors s1 ! p)"
    by (subst K(4), simp add: assms(2))+
  have t2f: "Kind (errors t2 ! p) = Kind (errors t1 ! p)" "Param (errors t2 ! p) = Param (errors t1 ! p)"
      "Location (errors t2 ! p) = Location (errors t1 ! p)" "Err (errors t2 ! p) = Err (errors t1 ! p)"
      "StripError (errors t2 ! p) = StripError (errors t1 ! p)"
    by (subst C(4), simp add: l1)+
  have t3f: "Kind (errors t3 ! p) = Kind (errors t2 ! p)" "Code (errors t3 ! p) = Code (errors t2 ! p)"
      "Location (errors t3 ! p) = Location (errors t2 ! p)" "Err (errors t3 ! p) = Err (errors t2 ! p)"
      "StripError (errors t3 ! p) = StripError (errors t2 ! p)"
    by (subst P(4), simp add: l2)+
  show ?thesis
    apply (rule exI [of _ "t3\<lparr>httperrs := httperrs t3 @ [e3]\<rparr>"])
    apply (simp only: r h)
    apply (simp add: h l3 e3f e2f e1f t3f t2f t1f K(1,2) C(1,2) P(1,2) assms(1))
    done
qed

text \<open>
  C3. Let \<open>cur\<close> be the value under construction when the loop over the arguments has
  ended, with a pointer to an \<open>Error\<close> as its cause, and \<open>prev\<close> the object at that
  address. Then \<open>RE\<close> returns the value, and: if the classification of \<open>prev\<close> equals
  that of \<open>cur\<close>, the one of \<open>prev\<close> becomes \<open>Other\<close>; if the classification of \<open>cur\<close>
  is \<open>Other\<close>, the returned value has the one of \<open>prev\<close>, and the one of \<open>prev\<close> becomes
  \<open>Other\<close>; otherwise both keep theirs. The same holds for the code and for the
  parameter, with the empty string for \<open>Other\<close>.
\<close>

theorem RE_suppresses_duplicates:
  assumes "args \<noteq> []"
    and "RE_loop s zero_HTTPErr args = Built cur s1"
    and "hErr cur = PtrError p"
  shows "\<exists>s2. RE s args = Inr (PtrHTTPErr (length (httperrs s1)), s2)
     \<and> (Kind (errors s1 ! p) = hKind cur \<longrightarrow> Kind (errors s2 ! p) = Other)
     \<and> (hKind cur = Other \<longrightarrow>
          hKind (httperrs s2 ! length (httperrs s1)) = Kind (errors s1 ! p)
          \<and> Kind (errors s2 ! p) = Other)
     \<and> (hKind cur \<noteq> Other \<longrightarrow> hKind (httperrs s2 ! length (httperrs s1)) = hKind cur)
     \<and> (Kind (errors s1 ! p) \<noteq> hKind cur \<and> hKind cur \<noteq> Other \<longrightarrow>
          Kind (errors s2 ! p) = Kind (errors s1 ! p))
     \<and> (Code (errors s1 ! p) = hCode cur \<longrightarrow> Code (errors s2 ! p) = [])
     \<and> (hCode cur = [] \<longrightarrow>
          hCode (httperrs s2 ! length (httperrs s1)) = Code (errors s1 ! p)
          \<and> Code (errors s2 ! p) = [])
     \<and> (hCode cur \<noteq> [] \<longrightarrow> hCode (httperrs s2 ! length (httperrs s1)) = hCode cur)
     \<and> (Code (errors s1 ! p) \<noteq> hCode cur \<and> hCode cur \<noteq> [] \<longrightarrow>
          Code (errors s2 ! p) = Code (errors s1 ! p))
     \<and> (Param (errors s1 ! p) = hParam cur \<longrightarrow> Param (errors s2 ! p) = [])
     \<and> (hParam cur = [] \<longrightarrow>
          hParam (httperrs s2 ! length (httperrs s1)) = Param (errors s1 ! p)
          \<and> Param (errors s2 ! p) = [])
     \<and> (hParam cur \<noteq> [] \<longrightarrow> hParam (httperrs s2 ! length (httperrs s1)) = hParam cur)
     \<and> (Param (errors s1 ! p) \<noteq> hParam cur \<and> hParam cur \<noteq> [] \<longrightarrow>
          Param (errors s2 ! p) = Param (errors s1 ! p))"
proof -
  have z: "\<forall>q. hErr zero_HTTPErr = PtrError q \<longrightarrow>
             length (errors s) \<le> q \<and> q < length (errors s)"
    by (simp add: zero_HTTPErr_def)
  from RE_loop_Built [OF assms(2) le_refl z] assms(3) have lt: "p < length (errors s1)"
    by simp
  from RE_merge_result [OF assms(3) lt] obtain s2 where
    r: "RE_merge s1 cur = Inr (PtrHTTPErr (length (httperrs s1)), s2)"
    and k: "hKind (httperrs s2 ! length (httperrs s1))
              = (if hKind cur = Other then Kind (errors s1 ! p) else hKind cur)"
       "Kind (errors s2 ! p)
          = (if Kind (errors s1 ! p) = hKind cur \<or> hKind cur = Other then Other
             else Kind (errors s1 ! p))"
    and c: "hCode (httperrs s2 ! length (httperrs s1))
              = (if hCode cur = [] then Code (errors s1 ! p) else hCode cur)"
       "Code (errors s2 ! p)
          = (if Code (errors s1 ! p) = hCode cur \<or> hCode cur = [] then []
             else Code (errors s1 ! p))"
    and q: "hParam (httperrs s2 ! length (httperrs s1))
              = (if hParam cur = [] then Param (errors s1 ! p) else hParam cur)"
       "Param (errors s2 ! p)
          = (if Param (errors s1 ! p) = hParam cur \<or> hParam cur = [] then []
             else Param (errors s1 ! p))"
    by blast
  have "RE s args = Inr (PtrHTTPErr (length (httperrs s1)), s2)"
    using assms(1,2) r by (simp add: RE_def)
  then show ?thesis
    using k c q by (intro exI [of _ s2]) simp
qed

text \<open>
  The two examples of the claim: a \<open>Validation\<close> argument over a \<open>Validation\<close> cause,
  and no classification over a \<open>Database\<close> cause.
\<close>

theorem RE_suppresses_duplicates_witness:
  "(\<exists>cur s1 s2.
      RE_loop example_state zero_HTTPErr [Kind_arg Validation, Error_arg (PtrError 1)]
        = Built cur s1
      \<and> hErr cur = PtrError 5 \<and> hKind cur = Validation \<and> Kind (errors s1 ! 5) = Validation
      \<and> RE example_state [Kind_arg Validation, Error_arg (PtrError 1)]
          = Inr (PtrHTTPErr 1, s2)
      \<and> hKind (httperrs s2 ! 1) = Validation \<and> Kind (errors s2 ! 5) = Other)
   \<and> (\<exists>cur s1 s2.
      RE_loop example_state zero_HTTPErr [Error_arg (PtrError 2)] = Built cur s1
      \<and> hErr cur = PtrError 5 \<and> hKind cur = Other \<and> Kind (errors s1 ! 5) = Database
      \<and> RE example_state [Error_arg (PtrError 2)] = Inr (PtrHTTPErr 1, s2)
      \<and> hKind (httperrs s2 ! 1) = Database \<and> Kind (errors s2 ! 5) = Other)"
proof -
  have "\<exists>cur s1.
      RE_loop example_state zero_HTTPErr [Kind_arg Validation, Error_arg (PtrError 1)]
        = Built cur s1
      \<and> hErr cur = PtrError 5 \<and> hKind cur = Validation \<and> Kind (errors s1 ! 5) = Validation
      \<and> length (httperrs s1) = 1"
    by (simp add: example_state_def zero_HTTPErr_def Let_def copy_Error_def set_Error_def
        log_write_def error_Error_def StripStack_def)
  then obtain cur s1 where
    a: "RE_loop example_state zero_HTTPErr [Kind_arg Validation, Error_arg (PtrError 1)]
          = Built cur s1"
      "hErr cur = PtrError 5" "hKind cur = Validation" "Kind (errors s1 ! 5) = Validation"
      "length (httperrs s1) = 1"
    by blast
  have ne: "[Kind_arg Validation, Error_arg (PtrError 1)] \<noteq> []" by simp
  have "\<exists>cur s1.
      RE_loop example_state zero_HTTPErr [Error_arg (PtrError 2)] = Built cur s1
      \<and> hErr cur = PtrError 5 \<and> hKind cur = Other \<and> Kind (errors s1 ! 5) = Database
      \<and> length (httperrs s1) = 1"
    by (simp add: example_state_def zero_HTTPErr_def Let_def copy_Error_def set_Error_def
        log_write_def error_Error_def StripStack_def)
  then obtain cur' s1' where
    b: "RE_loop example_state zero_HTTPErr [Error_arg (PtrError 2)] = Built cur' s1'"
      "hErr cur' = PtrError 5" "hKind cur' = Other" "Kind (errors s1' ! 5) = Database"
      "length (httperrs s1') = 1"
    by blast
  have ne': "[Error_arg (PtrError 2)] \<noteq> []" by simp
  from RE_suppresses_duplicates [OF ne a(1) a(2)] a
  have 1: "\<exists>s2. RE example_state [Kind_arg Validation, Error_arg (PtrError 1)]
              = Inr (PtrHTTPErr 1, s2)
            \<and> hKind (httperrs s2 ! 1) = Validation \<and> Kind (errors s2 ! 5) = Other"
    by auto
  from RE_suppresses_duplicates [OF ne' b(1) b(2)] b
  have 2: "\<exists>s2. RE example_state [Error_arg (PtrError 2)] = Inr (PtrHTTPErr 1, s2)
            \<and> hKind (httperrs s2 ! 1) = Database \<and> Kind (errors s2 ! 5) = Other"
    by auto
  from 1 a b 2 show ?thesis by blast
qed

section \<open>The last argument of a kind\<close>

lemma args_Cons:
  "last_or d (Int_args (x # xs)) = last_or (case x of Int_arg n \<Rightarrow> n | _ \<Rightarrow> d) (Int_args xs)"
  "last_or k (Kind_args (x # xs)) = last_or (case x of Kind_arg k' \<Rightarrow> k' | _ \<Rightarrow> k) (Kind_args xs)"
  "last_or c (Code_args (x # xs))
     = last_or (case x of String_arg c' \<Rightarrow> c' | Code_arg c' \<Rightarrow> c' | _ \<Rightarrow> c) (Code_args xs)"
  "last_or p (Parameter_args (x # xs))
     = last_or (case x of Parameter_arg p' \<Rightarrow> p' | _ \<Rightarrow> p) (Parameter_args xs)"
  "last_or r (Error_args (x # xs)) = last_or (case x of Error_arg r' \<Rightarrow> r' | _ \<Rightarrow> r) (Error_args xs)"
  by (cases x; simp)+

lemma RE_arg_fields:
  assumes "RE_arg s e x = Built e' s'"
  shows "HTTPStatusCode e' = (case x of Int_arg n \<Rightarrow> n | _ \<Rightarrow> HTTPStatusCode e)
     \<and> hKind e' = (case x of Kind_arg k' \<Rightarrow> k' | _ \<Rightarrow> hKind e)
     \<and> hCode e' = (case x of String_arg c' \<Rightarrow> c' | Code_arg c' \<Rightarrow> c' | _ \<Rightarrow> hCode e)
     \<and> hParam e' = (case x of Parameter_arg p' \<Rightarrow> p' | _ \<Rightarrow> hParam e)"
proof (cases x)
  case (Error_arg err)
  with assms show ?thesis
    by (cases err) (auto simp add: Let_def split: option.splits sum.splits if_splits)
qed (use assms in auto)

lemma RE_loop_fields:
  assumes "RE_loop s e args = Built e' s'"
  shows "HTTPStatusCode e' = last_or (HTTPStatusCode e) (Int_args args)
     \<and> hKind e' = last_or (hKind e) (Kind_args args)
     \<and> hCode e' = last_or (hCode e) (Code_args args)
     \<and> hParam e' = last_or (hParam e) (Parameter_args args)"
  using assms
proof (induction args arbitrary: s e)
  case Nil
  then show ?case by simp
next
  case (Cons x xs)
  from Cons.prems obtain e1 s1 where step: "RE_arg s e x = Built e1 s1"
    and rest: "RE_loop s1 e1 xs = Built e' s'"
    by (auto split: loop_result.splits)
  from Cons.IH [OF rest] RE_arg_fields [OF step] show ?case
    by (simp add: args_Cons)
qed

lemma RE_arg_plain:
  assumes "plain_arg x"
  shows "RE_arg s e x =
     Built (e\<lparr>HTTPStatusCode := (case x of Int_arg n \<Rightarrow> n | _ \<Rightarrow> HTTPStatusCode e),
              hKind := (case x of Kind_arg k' \<Rightarrow> k' | _ \<Rightarrow> hKind e),
              hCode := (case x of String_arg c' \<Rightarrow> c' | Code_arg c' \<Rightarrow> c' | _ \<Rightarrow> hCode e),
              hParam := (case x of Parameter_arg p' \<Rightarrow> p' | _ \<Rightarrow> hParam e),
              hErr := (case x of Error_arg r' \<Rightarrow> r' | _ \<Rightarrow> hErr e)\<rparr>) s"
proof (cases x)
  case (Error_arg err)
  with assms show ?thesis by (cases err) simp_all
qed (use assms in auto)

lemma RE_loop_plain:
  assumes "list_all plain_arg args"
  shows "RE_loop s e args =
     Built (e\<lparr>HTTPStatusCode := last_or (HTTPStatusCode e) (Int_args args),
              hKind := last_or (hKind e) (Kind_args args),
              hCode := last_or (hCode e) (Code_args args),
              hParam := last_or (hParam e) (Parameter_args args),
              hErr := last_or (hErr e) (Error_args args)\<rparr>) s"
  using assms
proof (induction args arbitrary: e)
  case Nil
  then show ?case by simp
next
  case (Cons x xs)
  then have px: "plain_arg x" and pxs: "list_all plain_arg xs" by simp_all
  show ?case
    by (simp add: RE_arg_plain [OF px] Cons.IH [OF pxs] args_Cons)
qed

lemma plain_last_Error:
  "list_all plain_arg args \<Longrightarrow> (\<forall>a. d \<noteq> PtrError a)
     \<Longrightarrow> \<forall>a. last_or d (Error_args args) \<noteq> PtrError a"
proof (induction args arbitrary: d)
  case Nil
  then show ?case by simp
next
  case (Cons x xs)
  then have px: "plain_arg x" and pxs: "list_all plain_arg xs" by simp_all
  have "\<forall>a. (case x of Error_arg r' \<Rightarrow> r' | _ \<Rightarrow> d) \<noteq> PtrError a"
  proof (cases x)
    case (Error_arg err)
    with px show ?thesis by (cases err) simp_all
  qed (use Cons.prems(2) in auto)
  from Cons.IH [OF pxs this] show ?case by (simp add: args_Cons)
qed

lemma RE_plain:
  assumes "args \<noteq> []" and "list_all plain_arg args"
  shows "RE s args =
     Inr (PtrHTTPErr (length (httperrs s)),
          s\<lparr>httperrs := httperrs s @
               [\<lparr>HTTPStatusCode = last_or 0 (Int_args args),
                 hKind = last_or Other (Kind_args args),
                 hParam = last_or [] (Parameter_args args),
                 hCode = last_or [] (Code_args args),
                 hErr = last_or nil (Error_args args)\<rparr>]\<rparr>)"
proof -
  have "\<forall>a. last_or nil (Error_args args) \<noteq> PtrError a"
    using plain_last_Error [OF assms(2)] by simp
  then have "case last_or nil (Error_args args) of PtrError a \<Rightarrow> False | _ \<Rightarrow> True"
    by (simp split: error.splits)
  then show ?thesis
    using assms(1)
    by (simp add: RE_def RE_loop_plain [OF assms(2)] RE_merge_def RE_return_def
        zero_HTTPErr_def split: error.splits)
qed

lemma RE_arg_Returned_unknown:
  "RE_arg s e x = Returned r s' \<Longrightarrow> \<exists>t v. r = unknown_type t v"
proof (cases x)
  case (Error_arg err)
  assume "RE_arg s e x = Returned r s'"
  with Error_arg show ?thesis
    by (cases err) (auto simp add: Let_def split: option.splits sum.splits if_splits)
qed auto

lemma RE_loop_Returned_unknown:
  "RE_loop s e args = Returned r s' \<Longrightarrow> \<exists>t v. r = unknown_type t v"
proof (induction args arbitrary: s e)
  case Nil
  then show ?case by simp
next
  case (Cons x xs)
  show ?case
  proof (cases "RE_arg s e x")
    case (Panicked p)
    with Cons.prems show ?thesis by simp
  next
    case (Returned r1 s1)
    with Cons.prems RE_arg_Returned_unknown [OF Returned] show ?thesis by simp
  next
    case (Built e1 s1)
    with Cons.prems have "RE_loop s1 e1 xs = Returned r s'" by simp
    then show ?thesis by (rule Cons.IH)
  qed
qed

lemma RE_returns_built:
  assumes "RE s args = Inr (PtrHTTPErr b, s')"
  shows "\<exists>cur s1. args \<noteq> [] \<and> RE_loop s zero_HTTPErr args = Built cur s1
           \<and> RE_merge s1 cur = Inr (PtrHTTPErr b, s')"
proof (cases "RE_loop s zero_HTTPErr args")
  case (Panicked p)
  with assms show ?thesis by (simp add: RE_def split: if_splits)
next
  case (Returned r s1)
  with assms RE_loop_Returned_unknown [OF Returned] show ?thesis
    by (auto simp add: RE_def unknown_type_def split: if_splits)
next
  case (Built cur s1)
  with assms show ?thesis by (auto simp add: RE_def split: if_splits)
qed

text \<open>
  C9, as the claim states it, fails when the last classification given is \<open>Other\<close> and
  the cause is a pointer to an \<open>Error\<close>: the returned value has the classification of
  the cause, \<open>Database\<close>, which is none of the arguments.
\<close>

theorem RE_last_argument_counterexample:
  "last_or Other (Kind_args [Kind_arg Invalid, Kind_arg Other, Error_arg (PtrError 2)]) = Other
   \<and> built_value (RE example_state [Kind_arg Invalid, Kind_arg Other, Error_arg (PtrError 2)])
      = Some \<lparr>HTTPStatusCode = 0, hKind = Database, hParam = [], hCode = [],
               hErr = PtrError 5\<rparr>"
  by (simp add: example_state_def zero_HTTPErr_def RE_def RE_merge_def RE_return_def
      merge_Kind_def merge_Code_def merge_Param_def Let_def copy_Error_def set_Error_def
      log_write_def error_Error_def StripStack_def built_value_def)

text \<open>
  C9, amended. For a list of arguments that are integers, classifications, strings,
  codes, parameters or errors other than a pointer to an \<open>Error\<close>, \<open>RE\<close> returns a new
  value without an error, and each of its fields is the last argument for that field, or
  zero when there is none. Whenever \<open>RE\<close> returns a value it has built, its status code
  is the last integer; its classification, code and parameter are the last argument
  for each, when that argument is not the zero value or the cause is not a pointer to
  an \<open>Error\<close>.
\<close>

theorem RE_last_argument_wins:
  "(args \<noteq> [] \<and> list_all plain_arg args \<longrightarrow>
      RE s args =
        Inr (PtrHTTPErr (length (httperrs s)),
             s\<lparr>httperrs := httperrs s @
                  [\<lparr>HTTPStatusCode = last_or 0 (Int_args args),
                    hKind = last_or Other (Kind_args args),
                    hParam = last_or [] (Parameter_args args),
                    hCode = last_or [] (Code_args args),
                    hErr = last_or nil (Error_args args)\<rparr>]\<rparr>))
   \<and> (RE s args = Inr (PtrHTTPErr b, s') \<longrightarrow>
        HTTPStatusCode (httperrs s' ! b) = last_or 0 (Int_args args)
        \<and> (last_or Other (Kind_args args) \<noteq> Other
             \<or> (\<forall>p. hErr (httperrs s' ! b) \<noteq> PtrError p) \<longrightarrow>
            hKind (httperrs s' ! b) = last_or Other (Kind_args args))
        \<and> (last_or [] (Code_args args) \<noteq> []
             \<or> (\<forall>p. hErr (httperrs s' ! b) \<noteq> PtrError p) \<longrightarrow>
            hCode (httperrs s' ! b) = last_or [] (Code_args args))
        \<and> (last_or [] (Parameter_args args) \<noteq> []
             \<or> (\<forall>p. hErr (httperrs s' ! b) \<noteq> PtrError p) \<longrightarrow>
            hParam (httperrs s' ! b) = last_or [] (Parameter_args args)))"
proof (intro conjI impI)
  assume "args \<noteq> [] \<and> list_all plain_arg args"
  then show "RE s args =
        Inr (PtrHTTPErr (length (httperrs s)),
             s\<lparr>httperrs := httperrs s @
                  [\<lparr>HTTPStatusCode = last_or 0 (Int_args args),
                    hKind = last_or Other (Kind_args args),
                    hParam = last_or [] (Parameter_args args),
                    hCode = last_or [] (Code_args args),
                    hErr = last_or nil (Error_args args)\<rparr>]\<rparr>)"
    using RE_plain by blast
next
  assume r: "RE s args = Inr (PtrHTTPErr b, s')"
  from RE_returns_built [OF r] obtain cur s1 where ne: "args \<noteq> []"
    and l: "RE_loop s zero_HTTPErr args = Built cur s1"
    and m: "RE_merge s1 cur = Inr (PtrHTTPErr b, s')" by blast
  from RE_loop_fields [OF l] have f:
    "HTTPStatusCode cur = last_or 0 (Int_args args)"
    "hKind cur = last_or Other (Kind_args args)"
    "hCode cur = last_or [] (Code_args args)"
    "hParam cur = last_or [] (Parameter_args args)"
    by (simp_all add: zero_HTTPErr_def)
  have z: "\<forall>q. hErr zero_HTTPErr = PtrError q \<longrightarrow>
             length (errors s) \<le> q \<and> q < length (errors s)"
    by (simp add: zero_HTTPErr_def)
  note inv = RE_loop_Built [OF l le_refl z]
  have "HTTPStatusCode (httperrs s' ! b) = HTTPStatusCode cur
      \<and> (hKind cur \<noteq> Other \<or> (\<forall>p. hErr (httperrs s' ! b) \<noteq> PtrError p) \<longrightarrow>
           hKind (httperrs s' ! b) = hKind cur)
      \<and> (hCode cur \<noteq> [] \<or> (\<forall>p. hErr (httperrs s' ! b) \<noteq> PtrError p) \<longrightarrow>
           hCode (httperrs s' ! b) = hCode cur)
      \<and> (hParam cur \<noteq> [] \<or> (\<forall>p. hErr (httperrs s' ! b) \<noteq> PtrError p) \<longrightarrow>
           hParam (httperrs s' ! b) = hParam cur)"
  proof (cases "\<exists>p. hErr cur = PtrError p")
    case True
    then obtain p where p: "hErr cur = PtrError p" by blast
    with inv have lt: "p < length (errors s1)" by simp
    from RE_merge_result [OF p lt] m show ?thesis by auto
  next
    case False
    then have "RE_merge s1 cur = RE_return s1 cur"
      by (cases "hErr cur") (simp_all add: RE_merge_def)
    with m show ?thesis by (auto simp add: RE_return_def)
  qed
  with f show "HTTPStatusCode (httperrs s' ! b) = last_or 0 (Int_args args)"
    and "last_or Other (Kind_args args) \<noteq> Other
             \<or> (\<forall>p. hErr (httperrs s' ! b) \<noteq> PtrError p) \<Longrightarrow>
            hKind (httperrs s' ! b) = last_or Other (Kind_args args)"
    and "last_or [] (Code_args args) \<noteq> []
             \<or> (\<forall>p. hErr (httperrs s' ! b) \<noteq> PtrError p) \<Longrightarrow>
            hCode (httperrs s' ! b) = last_or [] (Code_args args)"
    and "last_or [] (Parameter_args args) \<noteq> []
             \<or> (\<forall>p. hErr (httperrs s' ! b) \<noteq> PtrError p) \<Longrightarrow>
            hParam (httperrs s' ! b) = last_or [] (Parameter_args args)"
    by simp_all
qed

theorem RE_last_argument_wins_witness:
  "RE example_state [Kind_arg Invalid, Kind_arg NotExist] =
     Inr (PtrHTTPErr 1,
          example_state\<lparr>httperrs :=
            [zero_HTTPErr,
             \<lparr>HTTPStatusCode = 0, hKind = NotExist, hParam = [], hCode = [], hErr = nil\<rparr>]\<rparr>)
   \<and> (\<exists>s'. RE example_state
              [Int_arg 400, Kind_arg Invalid, String_arg ''E1'', Int_arg 422,
               Error_arg (PtrError 1), Kind_arg Validation, Code_arg ''E2'']
            = Inr (PtrHTTPErr 1, s')
          \<and> HTTPStatusCode (httperrs s' ! 1) = 422
          \<and> hKind (httperrs s' ! 1) = Validation
          \<and> hCode (httperrs s' ! 1) = ''E2'')"
proof -
  have p: "[Kind_arg Invalid, Kind_arg NotExist] \<noteq> []
           \<and> list_all plain_arg [Kind_arg Invalid, Kind_arg NotExist]" by simp
  have 1: "RE example_state [Kind_arg Invalid, Kind_arg NotExist] =
     Inr (PtrHTTPErr 1,
          example_state\<lparr>httperrs :=
            [zero_HTTPErr,
             \<lparr>HTTPStatusCode = 0, hKind = NotExist, hParam = [], hCode = [], hErr = nil\<rparr>]\<rparr>)"
    using RE_last_argument_wins [of "[Kind_arg Invalid, Kind_arg NotExist]" example_state] p
    by (simp add: example_state_def)
  have "\<exists>s'. RE example_state
              [Int_arg 400, Kind_arg Invalid, String_arg ''E1'', Int_arg 422,
               Error_arg (PtrError 1), Kind_arg Validation, Code_arg ''E2'']
            = Inr (PtrHTTPErr 1, s')"
    by (simp add: example_state_def zero_HTTPErr_def RE_def RE_merge_def RE_return_def
      merge_Kind_def merge_Code_def merge_Param_def Let_def copy_Error_def set_Error_def
      log_write_def error_Error_def StripStack_def)
  then obtain s' where r: "RE example_state
              [Int_arg 400, Kind_arg Invalid, String_arg ''E1'', Int_arg 422,
               Error_arg (PtrError 1), Kind_arg Validation, Code_arg ''E2'']
            = Inr (PtrHTTPErr 1, s')" by blast
  from RE_last_argument_wins [of "[Int_arg 400, Kind_arg Invalid, String_arg ''E1'', Int_arg 422,
               Error_arg (PtrError 1), Kind_arg Validation, Code_arg ''E2'']" example_state 1 s'] r
  have "HTTPStatusCode (httperrs s' ! 1) = 422 \<and> hKind (httperrs s' ! 1) = Validation
          \<and> hCode (httperrs s' ! 1) = ''E2''"
    by simp
  with r 1 show ?thesis by blast
qed

end
